theory Spec2Isabelle
  imports Complex_Main
begin

section \<open>JavaScript values\<close>

text \<open>
  A JavaScript number of a report row is modelled as \<open>NaN\<close> or an exact rational: the
  rounding of doubles and the two infinities are left out there (the optimizer, whose
  loop depends on them, has its own argument type below), \<open>-0\<close> and \<open>0\<close> are the same
  number (they are equal under \<open>===\<close> and print alike inside a template string).
  Arithmetic and comparison follow ECMAScript: every operation on \<open>NaN\<close> gives
  \<open>NaN\<close>, every comparison with \<open>NaN\<close> is false, \<open>Math.max\<close> of a \<open>NaN\<close> is \<open>NaN\<close>.
\<close>

datatype jsnum = NaN | Fin rat

fun js_add :: "jsnum \<Rightarrow> jsnum \<Rightarrow> jsnum" where
  "js_add (Fin a) (Fin b) = Fin (a + b)"
| "js_add _ _ = NaN"

fun js_sub :: "jsnum \<Rightarrow> jsnum \<Rightarrow> jsnum" where
  "js_sub (Fin a) (Fin b) = Fin (a - b)"
| "js_sub _ _ = NaN"

fun js_mul :: "jsnum \<Rightarrow> jsnum \<Rightarrow> jsnum" where
  "js_mul (Fin a) (Fin b) = Fin (a * b)"
| "js_mul _ _ = NaN"

fun js_less :: "jsnum \<Rightarrow> jsnum \<Rightarrow> bool" where
  "js_less (Fin a) (Fin b) = (a < b)"
| "js_less _ _ = False"

fun Math_max :: "jsnum \<Rightarrow> jsnum \<Rightarrow> jsnum" where
  "Math_max (Fin a) (Fin b) = Fin (max a b)"
| "Math_max _ _ = NaN"

text \<open>\<open>Math.round\<close> on a finite number: the nearest integer, a half going up.\<close>

definition Math_round :: "rat \<Rightarrow> int" where
  "Math_round x = \<lfloor>x + 1 / 2\<rfloor>"

text \<open>An optional boolean field read in a condition: absent (\<open>undefined\<close>) is falsy.\<close>

fun truthy :: "bool option \<Rightarrow> bool" where
  "truthy (Some b) = b"
| "truthy None = False"

text \<open>
  The storage, export and sharing collaborators are asynchronous calls that resolve
  or reject; a rejection is an exception at the \<open>await\<close>. Whether a call resolves is
  an input of the model (a flag per call), and an exception that reaches the caller
  is the \<open>Inl\<close> of the result, named after the step that threw.
\<close>

datatype error =
    AttendanceReadError
  | AttendanceWriteError
  | NoWorkers
  | AdvancesReadError
  | RatesTypeError
  | AdvancesWriteError
  | ExportError
  | ReportsWriteError
  | ShareError


section \<open>Denomination optimizer (\<open>calculateNoteDistribution\<close>)\<close>

text \<open>
  The optimizer is called on the batch total when a report is rendered. The total is a
  sum of products of day counts and \<open>Number\<close> of a rate, and a rate is the text of an
  input field, so the argument can be any JavaScript number, the two infinities
  included (\<open>Number('Infinity')\<close>, \<open>Number('1e999')\<close>).
\<close>

datatype number = Num jsnum | PosInfinity | NegInfinity

text \<open>
  The values the loop computes with: integers, and \<open>Infinity\<close>. The operations are
  those of the loop body at the operands it has: a finite counter (or a finite product
  of it) on the left of \<open>+\<close>, \<open><=\<close> and \<open>Math.abs(_ - _)\<close>, the divisors and factors 100
  and 500 on the right of \<open>/\<close> and \<open>*\<close>. \<open>Infinity\<close> minus, divided by or times a positive
  finite number is \<open>Infinity\<close>, and nothing is less than itself.
\<close>

datatype xint = Finite int | PlusInfinity

fun xle :: "int \<Rightarrow> xint \<Rightarrow> bool" where
  "xle n (Finite m) = (n \<le> m)"
| "xle n PlusInfinity = True"

fun xless :: "xint \<Rightarrow> xint \<Rightarrow> bool" where
  "xless (Finite a) (Finite b) = (a < b)"
| "xless (Finite a) PlusInfinity = True"
| "xless PlusInfinity _ = False"

fun xsub :: "xint \<Rightarrow> int \<Rightarrow> xint" where
  "xsub (Finite a) k = Finite (a - k)"
| "xsub PlusInfinity k = PlusInfinity"

fun xfloordiv :: "xint \<Rightarrow> int \<Rightarrow> xint" where
  "xfloordiv (Finite a) k = Finite (a div k)"
| "xfloordiv PlusInfinity k = PlusInfinity"

fun xmul :: "xint \<Rightarrow> int \<Rightarrow> xint" where
  "xmul (Finite a) k = Finite (a * k)"
| "xmul PlusInfinity k = PlusInfinity"

fun xadd :: "int \<Rightarrow> xint \<Rightarrow> xint" where
  "xadd n (Finite a) = Finite (n + a)"
| "xadd n PlusInfinity = PlusInfinity"

fun xabsdiff :: "int \<Rightarrow> xint \<Rightarrow> xint" where
  "xabsdiff n (Finite a) = Finite \<bar>n - a\<bar>"
| "xabsdiff n PlusInfinity = PlusInfinity"

record noteDistribution =
  notes500 :: int
  notes100 :: int

definition NOTE_500 :: int where "NOTE_500 = 500"
definition NOTE_100 :: int where "NOTE_100 = 100"

text \<open>
  Every integer up to \<open>2 ^ 53\<close> is a double, and a sum, difference or product of such
  integers that stays within \<open>2 ^ 53\<close> is computed exactly. The counter of the loop
  stops there: \<open>notes500++\<close> at \<open>2 ^ 53\<close> gives \<open>2 ^ 53 + 1\<close>, which rounds back to
  \<open>2 ^ 53\<close>.
\<close>

definition exactLimit :: int where "exactLimit = 2 ^ 53"

definition increment :: "int \<Rightarrow> int" where
  "increment n = (if n < exactLimit then n + 1 else n)"

text \<open>
  \<open>amount = Math.round(amount / 100) * 100\<close> and \<open>Math.floor(amount / NOTE_500)\<close>, for a
  finite amount, as the exact values. Up to \<open>2 ^ 53\<close>, \<open>Math.round\<close> of the double
  quotient is the \<open>Math_round\<close> of the exact quotient: a double that is not 100 times a
  half-integer has a quotient by 100 that is further than half a unit in the last place
  from every half-integer, so the division never rounds onto one.
\<close>

definition roundedAmount :: "rat \<Rightarrow> int" where
  "roundedAmount amount = Math_round (amount / 100) * 100"

definition maxNotes500 :: "int \<Rightarrow> int" where
  "maxNotes500 amount = amount div NOTE_500"

text \<open>
  The \<open>for\<close> loop over \<open>notes500\<close>. It may run forever, so its value is an option:
  \<open>None\<close> is a loop that never exits. \<open>Math.floor (x / 100)\<close> on an integer \<open>x\<close> is
  \<open>x div 100\<close>. The result holds integer counts; a count \<open>notes100\<close> that is \<open>Infinity\<close>
  is never stored, because the update condition is false for it (lemma
  \<open>infinite_count_not_stored\<close> below), and the branch for it leaves the result as it is.
\<close>

partial_function (option) noteLoop ::
  "xint \<Rightarrow> xint \<Rightarrow> int \<Rightarrow> xint \<Rightarrow> noteDistribution \<Rightarrow> noteDistribution option" where
  "noteLoop amount maxN n500 bestDiff result =
     (if xle n500 maxN then
        (let remainingAmount = xsub amount (n500 * NOTE_500);
             n100 = xfloordiv remainingAmount NOTE_100
         in if xadd (n500 * NOTE_500) (xmul n100 NOTE_100) = amount then
              (let diff = xabsdiff n500 n100
               in if xless diff bestDiff
                     \<or> (diff = bestDiff
                         \<and> xless (xadd n500 n100) (Finite (notes500 result + notes100 result)))
                  then (case n100 of
                          Finite m \<Rightarrow> noteLoop amount maxN (increment n500) diff
                                        \<lparr>notes500 = n500, notes100 = m\<rparr>
                        | PlusInfinity \<Rightarrow> noteLoop amount maxN (increment n500) bestDiff result)
                  else noteLoop amount maxN (increment n500) bestDiff result)
            else noteLoop amount maxN (increment n500) bestDiff result)
      else Some result)"

declare noteLoop.simps [code]

text \<open>
  \<open>calculateNoteDistribution\<close>. On \<open>NaN\<close> the rounded amount and the maximum are \<open>NaN\<close>,
  on \<open>-Infinity\<close> they are \<open>-Infinity\<close>: the loop condition is false at once and the
  initial result is returned. On \<open>Infinity\<close> both are \<open>Infinity\<close>. On a finite amount
  whose rounded value is at most \<open>2 ^ 53\<close> the loop computes with integers within
  \<open>2 ^ 53\<close>, exactly; when the rounded value is negative the maximum is negative too,
  whatever the rounding, and the loop condition is false at once. On a finite amount
  whose rounded value exceeds \<open>2 ^ 53\<close> the arithmetic of doubles rounds; what the
  program does there is not modelled: it is the parameter \<open>inexact\<close>, about which nothing
  is assumed.
\<close>

definition calculateNoteDistribution ::
  "(rat \<Rightarrow> noteDistribution option) \<Rightarrow> number \<Rightarrow> noteDistribution option" where
  "calculateNoteDistribution inexact amount =
     (case amount of
        Num NaN \<Rightarrow> Some \<lparr>notes500 = 0, notes100 = 0\<rparr>
      | NegInfinity \<Rightarrow> Some \<lparr>notes500 = 0, notes100 = 0\<rparr>
      | PosInfinity \<Rightarrow>
          noteLoop PlusInfinity (xfloordiv PlusInfinity NOTE_500) 0 PlusInfinity
            \<lparr>notes500 = 0, notes100 = 0\<rparr>
      | Num (Fin q) \<Rightarrow>
          (let amount' = roundedAmount q
           in if amount' \<le> exactLimit
              then noteLoop (Finite amount') (Finite (maxNotes500 amount')) 0 PlusInfinity
                     \<lparr>notes500 = 0, notes100 = 0\<rparr>
              else inexact q))"


section \<open>Attendance ledger (\<open>useAttendance\<close>)\<close>

datatype status = present | absent | half_day

record AttendanceRecord =
  workerId :: string
  date :: string
  status :: status
  folderName :: string

text \<open>
  The hook's two React states, and the two storage keys it reads and writes
  (\<open>None\<close>: \<open>getData\<close> finds nothing under the key). Each operation is taken at the
  state current when it is called: the closure of the latest render. The \<open>isLoading\<close>
  and \<open>error\<close> flags of the hook hold no attendance and are left out.
\<close>

record ledger =
  attendance :: "AttendanceRecord list"
  currentAttendance :: "AttendanceRecord list"
  stored_attendance :: "AttendanceRecord list option"
  stored_currentAttendance :: "AttendanceRecord list option"

text \<open>\<open>loadAttendance\<close>: a failed read is caught and leaves both lists as they were.\<close>

definition loadAttendance :: "bool \<Rightarrow> ledger \<Rightarrow> ledger" where
  "loadAttendance readOk L =
     (if readOk then
        L\<lparr>attendance := (case stored_attendance L of Some s \<Rightarrow> s | None \<Rightarrow> attendance L),
          currentAttendance :=
            (case stored_currentAttendance L of Some s \<Rightarrow> s | None \<Rightarrow> currentAttendance L)\<rparr>
      else L)"

text \<open>The template string \<open>`${r.folderName}-${r.date}`\<close>.\<close>

definition key :: "AttendanceRecord \<Rightarrow> string" where
  "key r = folderName r @ ''-'' @ date r"

text \<open>
  \<open>saveAttendanceRecords\<close>. The two \<open>storeData\<close> calls run under one \<open>Promise.all\<close>:
  each takes effect when it succeeds, and the states are set only when both did;
  otherwise the error is thrown again to the caller.
\<close>

definition saveAttendanceRecords ::
  "bool \<Rightarrow> bool \<Rightarrow> AttendanceRecord list \<Rightarrow> ledger \<Rightarrow> (error + unit) \<times> ledger" where
  "saveAttendanceRecords writeOk1 writeOk2 records L =
     (let updatedCurrentAttendance = records;
          recordKeys = map key records;
          filteredAttendance = filter (\<lambda>record. key record \<notin> set recordKeys) (attendance L);
          finalAttendance = filteredAttendance @ records;
          L1 = (if writeOk1 then L\<lparr>stored_attendance := Some finalAttendance\<rparr> else L);
          L2 = (if writeOk2 then L1\<lparr>stored_currentAttendance := Some updatedCurrentAttendance\<rparr>
                else L1)
      in if writeOk1 \<and> writeOk2
         then (Inr (),
               L2\<lparr>attendance := finalAttendance, currentAttendance := updatedCurrentAttendance\<rparr>)
         else (Inl AttendanceWriteError, L2))"

text \<open>
  \<open>getAttendanceByFolder\<close>: the list filtered is the \<open>attendance\<close> state followed by
  what storage holds; \<open>setAttendance\<close> takes effect for the next call. A failed read
  is not caught here.
\<close>

definition getAttendanceByFolder ::
  "bool \<Rightarrow> string \<Rightarrow> string \<Rightarrow> ledger \<Rightarrow> (error + AttendanceRecord list) \<times> ledger" where
  "getAttendanceByFolder readOk folder d L =
     (if \<not> readOk then (Inl AttendanceReadError, L)
      else
        (let storedAttendance = stored_attendance L;
             L' = (case storedAttendance of Some s \<Rightarrow> L\<lparr>attendance := s\<rparr> | None \<Rightarrow> L);
             allRecords = attendance L @ (case storedAttendance of Some s \<Rightarrow> s | None \<Rightarrow> [])
         in if d = [] then
              (Inr (filter (\<lambda>record. folderName record = folder) allRecords), L')
            else
              (Inr (filter (\<lambda>record. folderName record = folder \<and> date record = d)
                           allRecords), L')))"

text \<open>
  \<open>getCurrentAttendance\<close>: the current working set first, then the \<open>attendance\<close>
  state, then storage; the first of the three that has a record of the folder and date
  answers alone. A failed read is caught and answered with the empty list.
\<close>

definition getCurrentAttendance ::
  "bool \<Rightarrow> string \<Rightarrow> string \<Rightarrow> ledger \<Rightarrow> AttendanceRecord list \<times> ledger" where
  "getCurrentAttendance readOk folder d L =
     (let matches = (\<lambda>record. folderName record = folder \<and> date record = d);
          currentRecords = filter matches (currentAttendance L)
      in if length currentRecords > 0 then (currentRecords, L)
         else
           (let permanentRecords = filter matches (attendance L)
            in if length permanentRecords > 0 then (permanentRecords, L)
               else if \<not> readOk then ([], L)
               else
                 (case stored_attendance L of
                    None \<Rightarrow> ([], L)
                  | Some storedAttendance \<Rightarrow>
                      (let records = filter matches storedAttendance
                       in if length records > 0
                          then (records, L\<lparr>attendance := storedAttendance\<rparr>)
                          else ([], L)))))"


section \<open>Workers (\<open>useWorkers\<close>)\<close>

record Worker =
  w_id :: string
  w_name :: string
  w_folders :: "string list"

definition getWorkersByFolder :: "Worker list \<Rightarrow> string \<Rightarrow> Worker list" where
  "getWorkersByFolder workers folder = filter (\<lambda>worker. folder \<in> set (w_folders worker)) workers"


section \<open>Advances\<close>

text \<open>
  An advance as it lies in storage. \<open>deducted\<close> and \<open>deductedOn\<close> are optional fields
  (\<open>deducted?: boolean\<close>, \<open>deductedOn?: string\<close>): \<open>None\<close> is a field the object does
  not have.
\<close>

record Advance =
  adv_id :: string
  adv_workerId :: string
  adv_workerName :: string
  adv_amount :: string
  adv_date :: string
  adv_remarks :: string
  deducted :: "bool option"
  deductedOn :: "string option"

text \<open>
  A row of a report, the metadata kept of a generated report, and a written report
  file: its path, its rows and the batch total it prints. The letters of \<open>attendance\<close>
  (\<open>'P'\<close>, \<open>'A'\<close>, \<open>'H'\<close>) are characters.
\<close>

record WorkerReport =
  r_id :: string
  r_name :: string
  dailyWage :: jsnum
  halfDayWage :: jsnum
  r_attendance :: "char list"
  totalPayment :: jsnum
  advanceDeducted :: jsnum
  advanceRemarks :: string
  netPayment :: jsnum

record ReportMeta =
  m_id :: string
  m_name :: string
  m_folder :: string
  startDate :: string
  endDate :: string
  m_path :: string
  createdAt :: string

record artifact =
  art_path :: string
  art_rows :: "WorkerReport list"
  art_total :: jsnum

text \<open>
  The storage keys the screens share: \<open>advances\<close> and \<open>saved_reports\<close> (\<open>None\<close>: no
  value under the key), and the report files written to the document directory.
\<close>

record storage =
  advances_item :: "Advance list option"
  saved_reports_item :: "ReportMeta list option"
  documents :: "artifact list"

subsection \<open>Advance entry (\<open>addAdvance\<close>)\<close>

record advanceScreen =
  advances :: "Advance list"
  selectedWorkers :: "string list"
  amountInput :: string
  remarksInput :: string
  modalVisible :: bool

text \<open>
  \<open>addAdvance\<close>. \<open>now\<close> is \<open>Date.now().toString()\<close>, \<open>dateStr\<close> the selected date as
  \<open>YYYY-MM-DD\<close>, \<open>workers\<close> the workers of the selected folder. \<open>saveAdvances\<close>
  catches a failed write, so nothing is thrown.
\<close>

definition newAdvance :: "string \<Rightarrow> string \<Rightarrow> Worker list \<Rightarrow> advanceScreen \<Rightarrow> string \<Rightarrow> Advance" where
  "newAdvance now dateStr workers S wid =
     \<lparr>adv_id = now @ wid,
      adv_workerId = wid,
      adv_workerName =
        (case find (\<lambda>w. w_id w = wid) workers of
           Some w \<Rightarrow> (if w_name w = [] then ''Unknown'' else w_name w)
         | None \<Rightarrow> ''Unknown''),
      adv_amount = amountInput S,
      adv_date = dateStr,
      adv_remarks = remarksInput S,
      deducted = None,
      deductedOn = None\<rparr>"

definition addAdvance ::
  "bool \<Rightarrow> string \<Rightarrow> string \<Rightarrow> Worker list \<Rightarrow> storage \<Rightarrow> advanceScreen
     \<Rightarrow> storage \<times> advanceScreen" where
  "addAdvance writeOk now dateStr workers St S =
     (if length (selectedWorkers S) > 0 \<and> amountInput S \<noteq> [] then
        (let newAdvances = map (newAdvance now dateStr workers S) (selectedWorkers S);
             updatedAdvances = advances S @ newAdvances
         in ((if writeOk then St\<lparr>advances_item := Some updatedAdvances\<rparr> else St),
             S\<lparr>advances := updatedAdvances, selectedWorkers := [], amountInput := [],
               remarksInput := [], modalVisible := False\<rparr>))
      else (St, S))"


section \<open>Reports screen\<close>

datatype ExportFormat = xlsx | pdf

record PaymentRates =
  fullDay :: string
  halfDay :: string

text \<open>
  The React state of the screen that report generation reads or sets.
\<close>

record reportsScreen =
  savedReports :: "ReportMeta list"
  workersWithAdvance :: "Advance list"
  selectedFolder :: string
  deductAdvance :: bool
  selectedAdvanceWorkers :: "string list"
  exportFormat :: ExportFormat

text \<open>
  What the host gives: \<open>Number\<close> on a string, the time value of \<open>new Date(s)\<close>
  (\<open>None\<close> for an invalid date, whose comparisons are all false),
  \<open>toLocaleDateString\<close> of that date, the clock (\<open>Date.now().toString()\<close>,
  \<open>new Date().toISOString()\<close>), the document directory and whether the platform is
  the web.
\<close>

record host =
  Number :: "string \<Rightarrow> jsnum"
  timeOf :: "string \<Rightarrow> int option"
  toLocaleDateString :: "string \<Rightarrow> string"
  nowId :: string
  nowIso :: string
  documentDirectory :: string
  isWeb :: bool

text \<open>
  A request: the folder, the calendar days from \<open>start\<close> to \<open>end\<close> as the loop
  enumerates them (each as \<open>toISOString().split('T')[0]\<close>), the time value of \<open>end\<close>,
  and \<open>toISOString()\<close> of both ends.
\<close>

record request =
  folder :: string
  dates :: "string list"
  endTime :: int
  startIso :: string
  endIso :: string

text \<open>Which collaborator calls of a run resolve.\<close>

record io =
  attendanceLoadOk :: bool
  attendanceReadOk :: bool
  advancesReadOk :: bool
  advancesWriteOk :: bool
  exportOk :: bool
  reportsWriteOk :: bool
  shareOk :: bool

subsection \<open>\<open>loadWorkersWithAdvance\<close>\<close>

text \<open>A failed read, or no value under the key, leaves \<open>workersWithAdvance\<close> as it was.\<close>

definition relevantWorkers :: "Worker list \<Rightarrow> string \<Rightarrow> Advance list \<Rightarrow> Advance list" where
  "relevantWorkers workers sel advs =
     filter (\<lambda>adv.
        let workerExists = list_ex (\<lambda>w. w_id w = adv_workerId adv \<and> sel \<in> set (w_folders w)) workers
        in \<not> truthy (deducted adv) \<and> workerExists) advs"

definition loadWorkersWithAdvance ::
  "bool \<Rightarrow> Worker list \<Rightarrow> storage \<Rightarrow> reportsScreen \<Rightarrow> reportsScreen" where
  "loadWorkersWithAdvance readOk workers St S =
     (if \<not> readOk then S
      else (case advances_item St of
              None \<Rightarrow> S
            | Some advs \<Rightarrow>
                S\<lparr>workersWithAdvance := relevantWorkers workers (selectedFolder S) advs\<rparr>))"

subsection \<open>\<open>generateReport\<close>\<close>

text \<open>\<open>new Date(a.date) <= end\<close>.\<close>

definition dateLeEnd :: "host \<Rightarrow> string \<Rightarrow> int \<Rightarrow> bool" where
  "dateLeEnd h d e = (case timeOf h d of None \<Rightarrow> False | Some t \<Rightarrow> t \<le> e)"

text \<open>The attendance letters of one worker, a day each: absent when no record is found.\<close>

definition attendanceRecords :: "AttendanceRecord list \<Rightarrow> string \<Rightarrow> string list \<Rightarrow> Worker \<Rightarrow> char list" where
  "attendanceRecords att fld ds worker =
     map (\<lambda>targetDate.
        case find (\<lambda>a. workerId a = w_id worker \<and> folderName a = fld \<and> date a = targetDate) att of
          Some record \<Rightarrow>
            (if status record = present then CHR ''P''
             else if status record = half_day then CHR ''H'' else CHR ''A'')
        | None \<Rightarrow> CHR ''A'') ds"

definition workerAdvances :: "host \<Rightarrow> reportsScreen \<Rightarrow> int \<Rightarrow> Advance list \<Rightarrow> Worker \<Rightarrow> Advance list" where
  "workerAdvances h S e advs worker =
     filter (\<lambda>a. adv_workerId a = w_id worker \<and> dateLeEnd h (adv_date a) e \<and>
                 \<not> truthy (deducted a) \<and> w_id worker \<in> set (selectedAdvanceWorkers S)) advs"

text \<open>The rupee sign, as its UTF-8 bytes.\<close>

definition rupee :: string where
  "rupee = [CHR 0xE2, CHR 0x82, CHR 0xB9]"

fun join :: "string \<Rightarrow> string list \<Rightarrow> string" where
  "join sep [] = []"
| "join sep [x] = x"
| "join sep (x # y # ys) = x @ sep @ join sep (y # ys)"

definition reportRow ::
  "host \<Rightarrow> reportsScreen \<Rightarrow> request \<Rightarrow> PaymentRates \<Rightarrow> AttendanceRecord list \<Rightarrow> Advance list
     \<Rightarrow> Worker \<Rightarrow> WorkerReport" where
  "reportRow h S rq rates att advs worker =
     (let letters = attendanceRecords att (folder rq) (dates rq) worker;
          presentDays = length (filter (\<lambda>s. s = CHR ''P'') letters);
          halfDays = length (filter (\<lambda>s. s = CHR ''H'') letters);
          total = js_add (js_mul (Fin (of_nat presentDays)) (Number h (fullDay rates)))
                         (js_mul (Fin (of_nat halfDays)) (Number h (halfDay rates)));
          was = (if deductAdvance S then workerAdvances h S (endTime rq) advs worker else []);
          deduction =
            (if length was > 0
             then foldl (\<lambda>sum adv. js_add sum (Number h (adv_amount adv))) (Fin 0) was
             else Fin 0);
          remarksText =
            (if length was > 0
             then join '', ''
                    (map (\<lambda>adv. toLocaleDateString h (adv_date adv) @ '': '' @ rupee @ adv_amount adv) was)
             else [])
      in \<lparr>r_id = w_id worker,
          r_name = w_name worker,
          dailyWage = Number h (fullDay rates),
          halfDayWage = Number h (halfDay rates),
          r_attendance = letters,
          totalPayment = total,
          advanceDeducted = deduction,
          advanceRemarks = remarksText,
          netPayment = Math_max (Fin 0) (js_sub total deduction)\<rparr>)"

definition reportData ::
  "host \<Rightarrow> reportsScreen \<Rightarrow> request \<Rightarrow> PaymentRates \<Rightarrow> AttendanceRecord list \<Rightarrow> Advance list
     \<Rightarrow> Worker list \<Rightarrow> WorkerReport list" where
  "reportData h S rq rates att advs workers = map (reportRow h S rq rates att advs) workers"

text \<open>The write-back: the \<open>map\<close> over the advances that marks the settled ones.\<close>

definition settles :: "host \<Rightarrow> reportsScreen \<Rightarrow> int \<Rightarrow> Advance \<Rightarrow> bool" where
  "settles h S e adv \<longleftrightarrow>
     adv_workerId adv \<in> set (selectedAdvanceWorkers S) \<and> dateLeEnd h (adv_date adv) e \<and>
     \<not> truthy (deducted adv)"

definition updatedAdvances :: "host \<Rightarrow> reportsScreen \<Rightarrow> int \<Rightarrow> Advance list \<Rightarrow> Advance list" where
  "updatedAdvances h S e advs =
     map (\<lambda>adv. if settles h S e adv
                 then adv\<lparr>deducted := Some True, deductedOn := Some (nowIso h)\<rparr>
                 else adv) advs"

text \<open>\<open>deductAdvance && selectedAdvanceWorkers.length > 0\<close>.\<close>

definition writesBack :: "reportsScreen \<Rightarrow> bool" where
  "writesBack S \<longleftrightarrow> deductAdvance S \<and> length (selectedAdvanceWorkers S) > 0"


definition totalNetPayment :: "WorkerReport list \<Rightarrow> jsnum" where
  "totalNetPayment rows = foldl (\<lambda>sum row. js_add sum (netPayment row)) (Fin 0) rows"

text \<open>\<open>toISOString().split('T')[0]\<close>.\<close>

definition isoDay :: "string \<Rightarrow> string" where
  "isoDay s = takeWhile (\<lambda>c. c \<noteq> CHR ''T'') s"

definition filename :: "reportsScreen \<Rightarrow> request \<Rightarrow> string" where
  "filename S rq =
     folder rq @ ''_'' @ isoDay (startIso rq) @ ''_'' @ isoDay (endIso rq) @
     (if exportFormat S = pdf then ''.pdf'' else ''.xlsx'')"

definition reportMeta :: "host \<Rightarrow> reportsScreen \<Rightarrow> request \<Rightarrow> ReportMeta" where
  "reportMeta h S rq =
     \<lparr>m_id = nowId h,
      m_name = filename S rq,
      m_folder = folder rq,
      startDate = startIso rq,
      endDate = endIso rq,
      m_path = documentDirectory h @ filename S rq,
      createdAt = nowIso h\<rparr>"

text \<open>
  \<open>generateReport\<close>, in the order the source runs its steps: reload and read the
  attendance, reject a folder with no workers, read the advances, compute the rows,
  write the settled advances back, export the file, persist its metadata, share it.
  A step that throws ends the run; what earlier steps wrote stays written.
\<close>

text \<open>
  From the export on: \<open>S0\<close> is the state the run's closure holds. The export renders
  the rows and the batch total (the note distribution it prints is
  \<open>calculateNoteDistribution\<close> of that total) and writes the file; \<open>exportOk\<close> says
  whether it completes. An export that throws and one that never returns leave the same
  storage and state; the result \<open>ExportError\<close> stands for both.
\<close>

definition exportAndSave ::
  "host \<Rightarrow> io \<Rightarrow> request \<Rightarrow> reportsScreen \<Rightarrow> WorkerReport list
     \<Rightarrow> ledger \<times> storage \<times> reportsScreen
     \<Rightarrow> (error + ReportMeta) \<times> ledger \<times> storage \<times> reportsScreen" where
  "exportAndSave h i rq S0 rows state =
     (case state of (L, St, S) \<Rightarrow>
        if \<not> exportOk i then (Inl ExportError, L, St, S)
        else
          (let meta = reportMeta h S0 rq;
               St2 = St\<lparr>documents := documents St @
                       [\<lparr>art_path = m_path meta, art_rows = rows,
                         art_total = totalNetPayment rows\<rparr>]\<rparr>
           in if \<not> reportsWriteOk i then (Inl ReportsWriteError, L, St2, S)
              else
                (let St3 = St2\<lparr>saved_reports_item := Some (savedReports S0 @ [meta])\<rparr>;
                     S2 = S\<lparr>savedReports := savedReports S @ [meta]\<rparr>
                 in if (exportFormat S0 = pdf \<or> \<not> isWeb h) \<and> \<not> shareOk i
                    then (Inl ShareError, L, St3, S2)
                    else (Inr meta, L, St3, S2))))"

text \<open>From the computed rows on: the write-back, then the export.\<close>

definition settleAndExport ::
  "host \<Rightarrow> io \<Rightarrow> request \<Rightarrow> Advance list \<Rightarrow> WorkerReport list
     \<Rightarrow> ledger \<times> storage \<times> reportsScreen
     \<Rightarrow> (error + ReportMeta) \<times> ledger \<times> storage \<times> reportsScreen" where
  "settleAndExport h i rq advs rows state =
     (case state of (L, St, S) \<Rightarrow>
        if writesBack S then
          (if \<not> advancesWriteOk i then (Inl AdvancesWriteError, L, St, S)
           else
             (let upd = updatedAdvances h S (endTime rq) advs
              in exportAndSave h i rq S rows
                   (L, St\<lparr>advances_item := Some upd\<rparr>,
                    S\<lparr>workersWithAdvance := filter (\<lambda>adv. \<not> truthy (deducted adv)) upd\<rparr>)))
        else exportAndSave h i rq S rows (L, St, S))"

text \<open>\<open>folderRates[folder] || folderRates['Default']\<close>.\<close>

definition ratesFor :: "(string \<rightharpoonup> PaymentRates) \<Rightarrow> string \<Rightarrow> PaymentRates option" where
  "ratesFor folderRates fld =
     (case folderRates fld of Some r \<Rightarrow> Some r | None \<Rightarrow> folderRates ''Default'')"

text \<open>
  The run holds the \<open>getAttendanceByFolder\<close> of the render that created it: the
  \<open>attendance\<close> that function reads is the state from before the reload, while storage and
  the state it sets are those after the reload. When the read throws, the state is the
  one the reload left.
\<close>

definition generateReport ::
  "host \<Rightarrow> io \<Rightarrow> Worker list \<Rightarrow> (string \<rightharpoonup> PaymentRates) \<Rightarrow> request
     \<Rightarrow> ledger \<times> storage \<times> reportsScreen
     \<Rightarrow> (error + ReportMeta) \<times> ledger \<times> storage \<times> reportsScreen" where
  "generateReport h i workers folderRates rq state =
     (case state of (L, St, S) \<Rightarrow>
        (let L1 = loadAttendance (attendanceLoadOk i) L;
             ws = getWorkersByFolder workers (folder rq);
             fetched = getAttendanceByFolder (attendanceReadOk i) (folder rq) []
                         (L1\<lparr>attendance := attendance L\<rparr>);
             L2 = (if attendanceReadOk i then snd fetched else L1);
             advs = (case advances_item St of Some a \<Rightarrow> a | None \<Rightarrow> [])
         in (case fst fetched of
               Inl e \<Rightarrow> (Inl e, L2, St, S)
             | Inr att \<Rightarrow>
                 (if length ws = 0 then (Inl NoWorkers, L2, St, S)
                  else if \<not> advancesReadOk i then (Inl AdvancesReadError, L2, St, S)
                  else
                    (case ratesFor folderRates (folder rq) of
                       None \<Rightarrow> (Inl RatesTypeError, L2, St, S)
                     | Some r \<Rightarrow>
                         settleAndExport h i rq advs (reportData h S rq r att advs ws)
                           (L2, St, S))))))"


section \<open>The spec's \<open>listUnsettledForFolder\<close>\<close>

text \<open>
  The spec's \<open>listUnsettledForFolder(folderName, asOfDate)\<close>, in its words: the advances
  with \<open>deducted = false\<close>, \<open>date \<le> asOfDate\<close> and a \<open>workerId\<close> that belongs to a worker
  who is a member of \<open>folderName\<close>. It is compared with \<open>loadWorkersWithAdvance\<close>.
\<close>

definition listUnsettledForFolder_spec ::
  "host \<Rightarrow> Worker list \<Rightarrow> string \<Rightarrow> int \<Rightarrow> Advance list \<Rightarrow> Advance list" where
  "listUnsettledForFolder_spec h workers fld asOfDate advs =
     filter (\<lambda>adv. \<not> truthy (deducted adv) \<and> dateLeEnd h (adv_date adv) asOfDate \<and>
                   list_ex (\<lambda>w. w_id w = adv_workerId adv \<and> fld \<in> set (w_folders w)) workers) advs"


section \<open>Predicates used in the statements and proofs\<close>

text \<open>Two attendance records of the same folder and date.\<close>

definition samePair :: "AttendanceRecord \<Rightarrow> AttendanceRecord \<Rightarrow> bool" where
  "samePair r b \<longleftrightarrow> folderName r = folderName b \<and> date r = date b"

text \<open>
  A pair of counts that pays the rounded amount exactly, and the order the search
  keeps its best pair by: the difference of the counts first, the number of notes second.
\<close>

definition validNotes :: "int \<Rightarrow> noteDistribution \<Rightarrow> bool" where
  "validNotes A r \<longleftrightarrow> 0 \<le> notes500 r \<and> 0 \<le> notes100 r \<and> notes500 r * 500 + notes100 r * 100 = A"

definition noWorse :: "noteDistribution \<Rightarrow> int \<Rightarrow> int \<Rightarrow> bool" where
  "noWorse r a b \<longleftrightarrow> \<bar>notes500 r - notes100 r\<bar> < \<bar>a - b\<bar> \<or>
     (\<bar>notes500 r - notes100 r\<bar> = \<bar>a - b\<bar> \<and> notes500 r + notes100 r \<le> a + b)"


section \<open>Example data\<close>

text \<open>
  Folder \<open>F\<close> on one day: a batch for the workers \<open>A\<close> and \<open>B\<close> saved into an empty
  ledger, then a batch for \<open>A\<close> alone.
\<close>

definition recA :: AttendanceRecord where
  "recA = \<lparr>workerId = ''A'', date = ''2024-01-05'', status = present, folderName = ''F''\<rparr>"

definition recB :: AttendanceRecord where
  "recB = \<lparr>workerId = ''B'', date = ''2024-01-05'', status = half_day, folderName = ''F''\<rparr>"

definition emptyLedger :: ledger where
  "emptyLedger = \<lparr>attendance = [], currentAttendance = [], stored_attendance = None,
                   stored_currentAttendance = None\<rparr>"

definition savedAB :: ledger where
  "savedAB = snd (saveAttendanceRecords True True [recA, recB] emptyLedger)"

definition savedA :: ledger where
  "savedA = snd (saveAttendanceRecords True True [recA] savedAB)"

text \<open>
  The day before, worker \<open>A\<close> in folder \<open>F\<close>; and the ledger of an app that saved that
  row and was started again: storage holds the row, the two states of the freshly
  mounted hook are empty (the hook never loads by itself).
\<close>

definition recEarlier :: AttendanceRecord where
  "recEarlier = \<lparr>workerId = ''A'', date = ''2024-01-04'', status = present, folderName = ''F''\<rparr>"

definition restarted :: ledger where
  "restarted = (snd (saveAttendanceRecords True True [recEarlier] emptyLedger))
                 \<lparr>attendance := [], currentAttendance := []\<rparr>"

text \<open>Two records of different folders and dates with the same key.\<close>

definition recDash1 :: AttendanceRecord where
  "recDash1 = \<lparr>workerId = ''A'', date = ''2024-01-05'', status = present, folderName = ''F-1''\<rparr>"

definition recDash2 :: AttendanceRecord where
  "recDash2 = \<lparr>workerId = ''A'', date = ''1-2024-01-05'', status = present, folderName = ''F''\<rparr>"

text \<open>
  A host for the examples: \<open>Number\<close> and the time value of a date (counted in days) on
  the strings the examples use.
\<close>

definition exampleHost :: host where
  "exampleHost =
     \<lparr>Number = (\<lambda>s. if s = ''300'' then Fin 300 else if s = ''600'' then Fin 600
                     else if s = ''250'' then Fin 250 else NaN),
      timeOf = (\<lambda>s. if s = ''2024-01-03'' then Some 3 else if s = ''2024-01-05'' then Some 5
                     else if s = ''2024-01-09'' then Some 9 else None),
      toLocaleDateString = (\<lambda>s. s),
      nowId = ''1704622800000'',
      nowIso = ''2024-01-07T10:20:00.000Z'',
      documentDirectory = ''file:///documents/'',
      isWeb = False\<rparr>"

definition workerW :: Worker where
  "workerW = \<lparr>w_id = ''w1'', w_name = ''Asha'', w_folders = [''F'']\<rparr>"

definition advEarly :: Advance where
  "advEarly = \<lparr>adv_id = ''1704200000000w1'', adv_workerId = ''w1'', adv_workerName = ''Asha'',
               adv_amount = ''300'', adv_date = ''2024-01-03'', adv_remarks = [],
               deducted = None, deductedOn = None\<rparr>"

definition advLate :: Advance where
  "advLate = \<lparr>adv_id = ''1704800000000w1'', adv_workerId = ''w1'', adv_workerName = ''Asha'',
              adv_amount = ''300'', adv_date = ''2024-01-09'', adv_remarks = [],
              deducted = None, deductedOn = None\<rparr>"

definition exampleScreen :: reportsScreen where
  "exampleScreen = \<lparr>savedReports = [], workersWithAdvance = [], selectedFolder = ''F'',
                     deductAdvance = True, selectedAdvanceWorkers = [''w1''], exportFormat = pdf\<rparr>"

definition exampleStorage :: storage where
  "exampleStorage = \<lparr>advances_item = Some [advEarly], saved_reports_item = None, documents = []\<rparr>"

definition exampleRates :: "string \<rightharpoonup> PaymentRates" where
  "exampleRates = map_of [(''Default'', \<lparr>fullDay = ''600'', halfDay = ''250''\<rparr>)]"

definition exampleRequest :: request where
  "exampleRequest = \<lparr>folder = ''F'', dates = [''2024-01-04'', ''2024-01-05'', ''2024-01-06''],
                      endTime = 6, startIso = ''2024-01-04T00:00:00.000Z'',
                      endIso = ''2024-01-06T00:00:00.000Z''\<rparr>"

definition exampleAttendance :: "AttendanceRecord list" where
  "exampleAttendance =
     [\<lparr>workerId = ''w1'', date = ''2024-01-04'', status = present, folderName = ''F''\<rparr>,
      \<lparr>workerId = ''w1'', date = ''2024-01-05'', status = half_day, folderName = ''F''\<rparr>]"

definition exampleLedger :: ledger where
  "exampleLedger = \<lparr>attendance = [], currentAttendance = [],
                     stored_attendance = Some exampleAttendance, stored_currentAttendance = None\<rparr>"

text \<open>
  The same ledger with a row in the \<open>attendance\<close> state that storage no longer has: the
  worker absent on the first day.
\<close>

definition staleLedger :: ledger where
  "staleLedger = exampleLedger\<lparr>attendance :=
      [\<lparr>workerId = ''w1'', date = ''2024-01-04'', status = absent, folderName = ''F''\<rparr>]\<rparr>"

definition allOk :: io where
  "allOk = \<lparr>attendanceLoadOk = True, attendanceReadOk = True, advancesReadOk = True,
             advancesWriteOk = True, exportOk = True, reportsWriteOk = True, shareOk = True\<rparr>"

definition laterHost :: host where
  "laterHost = exampleHost\<lparr>nowId := ''1704709200000'', nowIso := ''2024-01-08T10:20:00.000Z''\<rparr>"

definition laterScreen :: reportsScreen where
  "laterScreen = exampleScreen\<lparr>workersWithAdvance := [advLate]\<rparr>"

definition exampleAdvanceScreen :: advanceScreen where
  "exampleAdvanceScreen = \<lparr>advances = [advEarly], selectedWorkers = [''w1'', ''w2''],
                            amountInput = ''250'', remarksInput = ''festival'', modalVisible = True\<rparr>"


text \<open>
  A report generated with every collaborator call succeeding, and a second one generated
  a day later from the state the first one left.
\<close>

definition firstRun :: "(error + ReportMeta) \<times> ledger \<times> storage \<times> reportsScreen" where
  "firstRun = generateReport exampleHost allOk [workerW] exampleRates exampleRequest
                (exampleLedger, exampleStorage\<lparr>advances_item := Some [advEarly, advLate]\<rparr>,
                 exampleScreen)"

definition secondRun :: "(error + ReportMeta) \<times> ledger \<times> storage \<times> reportsScreen" where
  "secondRun = generateReport laterHost allOk [workerW] exampleRates exampleRequest (snd firstRun)"


section \<open>Saving a batch of attendance\<close>

lemma samePair_key: "samePair r b \<Longrightarrow> key r = key b"
  by (simp add: samePair_def key_def)

lemma save_ok:
  "saveAttendanceRecords True True records L =
     (Inr (),
      \<lparr>attendance = filter (\<lambda>r. key r \<notin> set (map key records)) (attendance L) @ records,
       currentAttendance = records,
       stored_attendance = Some (filter (\<lambda>r. key r \<notin> set (map key records)) (attendance L) @ records),
       stored_currentAttendance = Some records\<rparr>)"
  by (simp add: saveAttendanceRecords_def Let_def)

lemma kept_no_pair:
  "r \<in> set (filter (\<lambda>r. key r \<notin> set (map key records)) old) \<Longrightarrow> b \<in> set records \<Longrightarrow>
   \<not> samePair r b"
proof
  assume r: "r \<in> set (filter (\<lambda>r. key r \<notin> set (map key records)) old)"
    and b: "b \<in> set records" and s: "samePair r b"
  from s have "key r = key b" by (rule samePair_key)
  with b have "key r \<in> set (map key records)" by simp
  with r show False by simp
qed

text \<open>
  What a successful save does to the rows it finds in the \<open>attendance\<close> state: the rows
  it keeps have the folder and date of no batch row, so every row of the result that
  shares folder and date with a batch row is a row of the batch.
\<close>

lemma saveBatch_replaces_pairs:
  "(let kept = filter (\<lambda>r. key r \<notin> set (map key records)) (attendance L);
        L' = snd (saveAttendanceRecords True True records L)
    in fst (saveAttendanceRecords True True records L) = Inr () \<and>
       attendance L' = kept @ records \<and>
       stored_attendance L' = Some (kept @ records) \<and>
       set kept \<subseteq> set (attendance L) \<and>
       (\<forall>r \<in> set kept. \<forall>b \<in> set records. \<not> samePair r b) \<and>
       (\<forall>r \<in> set (attendance L'). (\<exists>b \<in> set records. samePair r b) \<longrightarrow> r \<in> set records))"
proof -
  let ?kept = "filter (\<lambda>r. key r \<notin> set (map key records)) (attendance L)"
  have k: "\<forall>r \<in> set ?kept. \<forall>b \<in> set records. \<not> samePair r b"
    by (intro ballI) (rule kept_no_pair)
  then have a: "\<forall>r \<in> set (?kept @ records). (\<exists>b \<in> set records. samePair r b) \<longrightarrow> r \<in> set records"
    by (metis Un_iff set_append)
  have sub: "set ?kept \<subseteq> set (attendance L)" by (rule filter_is_subset)
  from k a sub show ?thesis unfolding save_ok Let_def fst_conv snd_conv
    by (simp only: ledger.simps)
qed

text \<open>
  The scenario of the claim, in one session: after the batch for \<open>A\<close> and \<open>B\<close>, the
  batch for \<open>A\<close> alone leaves no row of \<open>B\<close>, which has the folder and date of the row
  of \<open>A\<close>.
\<close>

lemma saveBatch_scenario:
  "samePair recB recA \<and> attendance savedAB = [recA, recB] \<and> recB \<notin> set (attendance savedA) \<and>
   stored_attendance savedA = Some [recA]"
  by code_simp

text \<open>
  The key stands for the pair when the dates have one length, as the dates of the
  attendance screen have (\<open>toISOString().split('T')[0]\<close>); in general two pairs can
  share a key.
\<close>

lemma key_eq_samePair:
  assumes "length (date r) = length (date b)"
  shows "key r = key b \<longleftrightarrow> samePair r b"
proof -
  have "length (''-'' @ date r) = length (''-'' @ date b)" using assms by simp
  then have "(folderName r @ (''-'' @ date r) = folderName b @ (''-'' @ date b)) =
             (folderName r = folderName b \<and> ''-'' @ date r = ''-'' @ date b)"
    by (intro append_eq_append_conv) simp
  then show ?thesis by (simp add: key_def samePair_def)
qed

lemma key_collision: "key recDash1 = key recDash2 \<and> \<not> samePair recDash1 recDash2"
  by code_simp

text \<open>
  A row of the \<open>attendance\<close> state whose folder and date are those of no batch row, the
  dates being of one length, is kept by a successful save, in the state and in storage.
\<close>

lemma save_keeps_other_pairs_of_state:
  assumes "r \<in> set (attendance L)"
    and "\<forall>b \<in> set records. length (date r) = length (date b) \<and> \<not> samePair r b"
  shows "r \<in> set (attendance (snd (saveAttendanceRecords True True records L))) \<and>
         (\<exists>rows. stored_attendance (snd (saveAttendanceRecords True True records L)) = Some rows \<and>
                 r \<in> set rows)"
proof -
  have "key r \<notin> set (map key records)"
  proof
    assume "key r \<in> set (map key records)"
    then obtain b where b: "b \<in> set records" and k: "key r = key b" by auto
    from assms(2) b have "length (date r) = length (date b)" and n: "\<not> samePair r b" by auto
    from key_eq_samePair[OF this(1)] k n show False by simp
  qed
  with assms(1) show ?thesis by (simp add: save_ok)
qed

text \<open>
  The rows written to storage are computed from the \<open>attendance\<close> state alone: what
  storage held before plays no part, and with an empty state the stored list becomes the
  batch.
\<close>

lemma save_overwrites_storage:
  "stored_attendance (snd (saveAttendanceRecords True True records (L\<lparr>stored_attendance := x\<rparr>))) =
   stored_attendance (snd (saveAttendanceRecords True True records L))"
  by (simp add: save_ok)

lemma save_from_empty_state:
  "attendance L = [] \<Longrightarrow>
   stored_attendance (snd (saveAttendanceRecords True True records L)) = Some records"
  by (simp add: save_ok)

text \<open>
  Claim C1, where the program departs from it. The app is started with the row of the
  day before in storage. The attendance screen asks for the rows of folder \<open>F\<close> on
  2024-01-05 (\<open>getCurrentAttendance\<close>): there are none, and the \<open>attendance\<close> state stays
  empty. It then saves the batch for \<open>A\<close> on that day. The save succeeds, and storage
  holds the batch alone: the row of the day before, which has another date than every
  row of the batch, is gone, and a query for it finds nothing.
\<close>

theorem C1_save_loses_other_days:
  "stored_attendance restarted = Some [recEarlier] \<and>
   attendance restarted = [] \<and>
   \<not> samePair recEarlier recA \<and>
   getCurrentAttendance True ''F'' ''2024-01-05'' restarted = ([], restarted) \<and>
   fst (saveAttendanceRecords True True [recA] restarted) = Inr () \<and>
   stored_attendance (snd (saveAttendanceRecords True True [recA] restarted)) = Some [recA] \<and>
   fst (getAttendanceByFolder True ''F'' ''2024-01-04''
          (snd (saveAttendanceRecords True True [recA] restarted))) = Inr []"
  by code_simp

text \<open>
  Claim C8. Saving the same batch a second time returns the same result and leaves the
  same ledger as the first save: both lists of the state and both stored values, in the
  same order.
\<close>

theorem C8_saveBatch_idempotent:
  "saveAttendanceRecords True True records (snd (saveAttendanceRecords True True records L)) =
   saveAttendanceRecords True True records L"
proof -
  have "filter (\<lambda>r. key r \<notin> set (map key records)) records = []"
    by (induction records) auto
  then show ?thesis by (simp add: save_ok)
qed

theorem C8_saveBatch_witness:
  "saveAttendanceRecords True True [recA] savedA = saveAttendanceRecords True True [recA] savedAB \<and>
   attendance savedA = [recA]"
proof -
  have "attendance savedA = [recA]"
    by (simp add: savedA_def savedAB_def save_ok emptyLedger_def key_def recA_def recB_def)
  then show ?thesis using C8_saveBatch_idempotent[of "[recA]" savedAB] by (simp add: savedA_def)
qed


section \<open>Querying after a save\<close>

text \<open>
  After a save, \<open>getCurrentAttendance\<close> answers a folder and date of the batch from the
  current working set alone: exactly the batch rows of that folder and date.
  \<open>getAttendanceByFolder\<close> concatenates the \<open>attendance\<close> state and the stored list, which
  hold the same rows after a save, and returns every batch row of the folder and date
  twice.
\<close>

lemma getCurrentAttendance_after_save:
  assumes "b \<in> set records" and "folderName b = f" and "date b = d"
  shows "fst (getCurrentAttendance readOk f d (snd (saveAttendanceRecords True True records L))) =
         filter (\<lambda>r. folderName r = f \<and> date r = d) records"
proof -
  have "filter (\<lambda>r. folderName r = f \<and> date r = d) records \<noteq> []"
    using assms by (auto simp: filter_empty_conv)
  then show ?thesis by (simp add: getCurrentAttendance_def save_ok Let_def)
qed

lemma getAttendanceByFolder_after_save:
  assumes "b \<in> set records" and "folderName b = f" and "date b = d" and "d \<noteq> []"
  shows "fst (getAttendanceByFolder True f d (snd (saveAttendanceRecords True True records L))) =
         Inr (filter (\<lambda>r. folderName r = f \<and> date r = d) records @
              filter (\<lambda>r. folderName r = f \<and> date r = d) records)"
proof -
  have "filter (\<lambda>r. folderName r = f \<and> date r = d)
          (filter (\<lambda>r. key r \<notin> set (map key records)) (attendance L)) = []"
    using assms kept_no_pair[of _ records "attendance L" b]
    by (auto simp: filter_empty_conv samePair_def)
  then show ?thesis using assms(4) by (simp add: getAttendanceByFolder_def save_ok Let_def)
qed



section \<open>Advance entry\<close>

text \<open>
  Claim C9, as amended. When at least one worker is selected and the amount is not
  empty, \<open>addAdvance\<close> appends one entry per selected worker, in selection order, each
  with the amount and date of the submission. The entries have no \<open>deducted\<close> and no
  \<open>deductedOn\<close> field; a reader's test \<open>!adv.deducted\<close> takes the absent field as not
  deducted. A successful write stores the extended list.
\<close>

theorem C9_addAdvance_entries:
  assumes "selectedWorkers S \<noteq> []" and "amountInput S \<noteq> []"
  shows "(let S' = snd (addAdvance writeOk now dateStr workers St S);
              new = map (newAdvance now dateStr workers S) (selectedWorkers S)
          in advances S' = advances S @ new \<and>
             length new = length (selectedWorkers S) \<and>
             map adv_workerId new = selectedWorkers S \<and>
             (\<forall>a \<in> set new. deducted a = None \<and> deductedOn a = None \<and> \<not> truthy (deducted a) \<and>
                              adv_amount a = amountInput S \<and> adv_date a = dateStr) \<and>
             (writeOk \<longrightarrow> advances_item (fst (addAdvance writeOk now dateStr workers St S))
                            = Some (advances S @ new)))"
  using assms by (auto simp: addAdvance_def newAdvance_def Let_def comp_def)

text \<open>
  The two entries created for a submission with two selected workers have no
  \<open>deducted\<close> field: the field is absent, not \<open>false\<close>.
\<close>

theorem C9_counterexample:
  "map deducted
     (drop 1 (advances (snd (addAdvance True ''1704622800000'' ''2024-01-07'' [workerW]
                               exampleStorage exampleAdvanceScreen)))) = [None, None]"
  by code_simp

theorem C9_witness:
  "selectedWorkers exampleAdvanceScreen \<noteq> [] \<and> amountInput exampleAdvanceScreen \<noteq> [] \<and>
   map adv_workerId
     (advances (snd (addAdvance True ''1704622800000'' ''2024-01-07'' [workerW]
                       exampleStorage exampleAdvanceScreen))) = [''w1'', ''w1'', ''w2''] \<and>
   map adv_workerName
     (advances (snd (addAdvance True ''1704622800000'' ''2024-01-07'' [workerW]
                       exampleStorage exampleAdvanceScreen))) = [''Asha'', ''Asha'', ''Unknown'']"
proof -
  have 1: "selectedWorkers exampleAdvanceScreen \<noteq> []" by (simp add: exampleAdvanceScreen_def)
  have 2: "amountInput exampleAdvanceScreen \<noteq> []" by (simp add: exampleAdvanceScreen_def)
  have "advances (snd (addAdvance True ''1704622800000'' ''2024-01-07'' [workerW]
                       exampleStorage exampleAdvanceScreen)) =
        advances exampleAdvanceScreen @
        map (newAdvance ''1704622800000'' ''2024-01-07'' [workerW] exampleAdvanceScreen)
            (selectedWorkers exampleAdvanceScreen)"
    using C9_addAdvance_entries[OF 1 2, of True "''1704622800000''" "''2024-01-07''" "[workerW]"
            exampleStorage]
    by (simp add: Let_def)
  then show ?thesis using 1 2
    by (simp add: exampleAdvanceScreen_def newAdvance_def advEarly_def workerW_def)
qed


section \<open>Unsettled advances of a folder\<close>

text \<open>
  Claim C5, as amended. \<open>loadWorkersWithAdvance\<close> sets \<open>workersWithAdvance\<close> to exactly
  the stored advances that are not deducted and whose \<open>workerId\<close> is the id of a worker
  who is a member of the selected folder, in stored order. The date of an advance plays
  no part.
\<close>

theorem C5_unsettled_of_folder:
  assumes "advances_item St = Some advs"
  shows "workersWithAdvance (loadWorkersWithAdvance True workers St S) =
           filter (\<lambda>adv. \<not> truthy (deducted adv) \<and>
                         (\<exists>w \<in> set workers. w_id w = adv_workerId adv \<and>
                                               selectedFolder S \<in> set (w_folders w))) advs \<and>
         (\<forall>adv. adv \<in> set (workersWithAdvance (loadWorkersWithAdvance True workers St S)) \<longleftrightarrow>
                adv \<in> set advs \<and> \<not> truthy (deducted adv) \<and>
                (\<exists>w \<in> set workers. w_id w = adv_workerId adv \<and>
                                      selectedFolder S \<in> set (w_folders w)))"
  using assms
  by (auto simp: loadWorkersWithAdvance_def relevantWorkers_def list_ex_iff Let_def)

text \<open>
  An advance dated after the sixth day is returned by \<open>loadWorkersWithAdvance\<close>; the
  spec's \<open>listUnsettledForFolder\<close> as of the sixth day leaves it out.
\<close>

theorem C5_counterexample:
  "workersWithAdvance
     (loadWorkersWithAdvance True [workerW]
        (exampleStorage\<lparr>advances_item := Some [advLate]\<rparr>) exampleScreen) = [advLate] \<and>
   listUnsettledForFolder_spec exampleHost [workerW] ''F'' 6 [advLate] = [] \<and>
   dateLeEnd exampleHost (adv_date advLate) 6 = False"
  by code_simp

theorem C5_witness:
  "advances_item exampleStorage = Some [advEarly] \<and>
   workersWithAdvance (loadWorkersWithAdvance True [workerW] exampleStorage exampleScreen) = [advEarly]"
proof -
  have a: "advances_item exampleStorage = Some [advEarly]" by (simp add: exampleStorage_def)
  have "filter (\<lambda>adv. \<not> truthy (deducted adv) \<and>
                         (\<exists>w \<in> set [workerW]. w_id w = adv_workerId adv \<and>
                                               selectedFolder exampleScreen \<in> set (w_folders w)))
          [advEarly] = [advEarly]"
    by (simp add: advEarly_def workerW_def exampleScreen_def)
  with C5_unsettled_of_folder[OF a, of "[workerW]" exampleScreen] a show ?thesis by simp
qed


section \<open>Net payment of a report row\<close>

lemma Math_max_not_negative: "\<not> js_less (Math_max (Fin 0) x) (Fin 0)"
  by (cases x) simp_all

lemma Math_max_shape: "Math_max (Fin 0) x = NaN \<or> (\<exists>q. 0 \<le> q \<and> Math_max (Fin 0) x = Fin q)"
  by (cases x) simp_all

lemma reportRow_net:
  "netPayment (reportRow h S rq rates att advs worker) =
   Math_max (Fin 0) (js_sub (totalPayment (reportRow h S rq rates att advs worker))
                             (advanceDeducted (reportRow h S rq rates att advs worker)))"
  by (simp add: reportRow_def Let_def)

text \<open>
  Claim C7. In every row of the report data, whatever the rates, attendance and
  advances, \<open>netPayment\<close> is \<open>Math.max(0, totalPayment - advanceDeducted)\<close> and is not
  less than 0: it is a non-negative number, or \<open>NaN\<close> when a rate or an amount is not a
  number.
\<close>

theorem C7_netPayment_never_negative:
  "\<forall>row \<in> set (reportData h S rq rates att advs workers).
     netPayment row = Math_max (Fin 0) (js_sub (totalPayment row) (advanceDeducted row)) \<and>
     \<not> js_less (netPayment row) (Fin 0) \<and>
     (netPayment row = NaN \<or> (\<exists>q. 0 \<le> q \<and> netPayment row = Fin q))"
proof
  fix row assume "row \<in> set (reportData h S rq rates att advs workers)"
  then obtain worker where row: "row = reportRow h S rq rates att advs worker"
    by (auto simp: reportData_def)
  have net: "netPayment row = Math_max (Fin 0) (js_sub (totalPayment row) (advanceDeducted row))"
    unfolding row by (rule reportRow_net)
  show "netPayment row = Math_max (Fin 0) (js_sub (totalPayment row) (advanceDeducted row)) \<and>
     \<not> js_less (netPayment row) (Fin 0) \<and>
     (netPayment row = NaN \<or> (\<exists>q. 0 \<le> q \<and> netPayment row = Fin q))"
    using net Math_max_not_negative Math_max_shape by simp
qed

text \<open>
  The scenario of the spec: present, half day, absent at the rates 600 and 250 is a
  total of 850; with an unsettled advance of 300 the net payment is 550.
\<close>

lemma exampleRow:
  "reportData exampleHost exampleScreen exampleRequest \<lparr>fullDay = ''600'', halfDay = ''250''\<rparr>
     exampleAttendance [advEarly] [workerW] =
   [\<lparr>r_id = ''w1'', r_name = ''Asha'', dailyWage = Fin 600, halfDayWage = Fin 250,
     r_attendance = ''PHA'', totalPayment = Fin 850, advanceDeducted = Fin 300,
     advanceRemarks = ''2024-01-03: '' @ rupee @ ''300'', netPayment = Fin 550\<rparr>]"
  by code_simp


theorem C7_netPayment_witness:
  "netPayment (hd (reportData exampleHost exampleScreen exampleRequest
                     \<lparr>fullDay = ''600'', halfDay = ''250''\<rparr> exampleAttendance [advEarly] [workerW]))
     = Fin 550 \<and>
   totalPayment (hd (reportData exampleHost exampleScreen exampleRequest
                     \<lparr>fullDay = ''600'', halfDay = ''250''\<rparr> exampleAttendance [advEarly] [workerW]))
     = Fin 850 \<and>
   \<not> js_less (netPayment (hd (reportData exampleHost exampleScreen exampleRequest
                     \<lparr>fullDay = ''600'', halfDay = ''250''\<rparr> exampleAttendance [advEarly] [workerW])))
        (Fin 0)"
  using C7_netPayment_never_negative[of exampleHost exampleScreen exampleRequest
          "\<lparr>fullDay = ''600'', halfDay = ''250''\<rparr>" exampleAttendance "[advEarly]" "[workerW]"]
  by (simp add: exampleRow)


section \<open>Settlement is at most once per advance\<close>

lemma settles_same:
  "timeOf h' = timeOf h \<Longrightarrow> selectedAdvanceWorkers S' = selectedAdvanceWorkers S \<Longrightarrow>
   settles h' S' e a = settles h S e a"
  by (simp add: settles_def dateLeEnd_def)

lemma settles_settled:
  "\<not> settles h' S' e' (a\<lparr>deducted := Some True, deductedOn := Some t\<rparr>)"
  by (simp add: settles_def)

lemma settles_not_deducted: "truthy (deducted a) \<Longrightarrow> \<not> settles h S e a"
  by (simp add: settles_def)

lemma updatedAdvances_twice:
  assumes "timeOf h' = timeOf h" and "selectedAdvanceWorkers S' = selectedAdvanceWorkers S"
  shows "updatedAdvances h' S' e (updatedAdvances h S e advs) = updatedAdvances h S e advs"
  unfolding updatedAdvances_def map_map
  by (rule map_cong[OF refl]) (simp add: settles_settled settles_same[OF assms])

lemma updatedAdvances_nth:
  assumes "i < length advs"
  shows "updatedAdvances h S e advs ! i =
           (if settles h S e (advs ! i)
            then (advs ! i)\<lparr>deducted := Some True, deductedOn := Some (nowIso h)\<rparr>
            else advs ! i)"
  using assms by (simp add: updatedAdvances_def)

lemma filter_map_marked:
  assumes "\<And>a. Q a \<Longrightarrow> \<not> P (g a)"
  shows "filter P (map (\<lambda>a. if Q a then g a else a) xs) = filter P (filter (\<lambda>a. \<not> Q a) xs)"
  using assms by (induction xs) auto

lemma workerAdvances_after:
  "workerAdvances h' S' e' (updatedAdvances h S e advs) w =
   workerAdvances h' S' e' (filter (\<lambda>a. \<not> settles h S e a) advs) w"
  unfolding workerAdvances_def updatedAdvances_def
  by (rule filter_map_marked) simp

lemma workerAdvances_subset: "set (workerAdvances h S e advs w) \<subseteq> set advs"
  by (simp add: workerAdvances_def)

lemma workerAdvances_settled:
  assumes "a \<in> set (workerAdvances h' S' e' advs w)" and "timeOf h' = timeOf h"
    and "selectedAdvanceWorkers S' = selectedAdvanceWorkers S" and "e' \<le> e"
  shows "settles h S e a"
  using assms by (auto simp: workerAdvances_def settles_def dateLeEnd_def split: option.splits)

lemma workerAdvances_again:
  assumes "timeOf h' = timeOf h" and "selectedAdvanceWorkers S' = selectedAdvanceWorkers S"
    and "e' \<le> e"
  shows "workerAdvances h' S' e' (updatedAdvances h S e advs) w = []"
proof (rule ccontr)
  let ?rest = "filter (\<lambda>a. \<not> settles h S e a) advs"
  assume "workerAdvances h' S' e' (updatedAdvances h S e advs) w \<noteq> []"
  then have "workerAdvances h' S' e' ?rest w \<noteq> []" unfolding workerAdvances_after .
  then obtain a where a: "a \<in> set (workerAdvances h' S' e' ?rest w)"
    by (cases "workerAdvances h' S' e' ?rest w") auto
  then have "settles h S e a" using assms by (rule workerAdvances_settled)
  moreover from a have "a \<in> set ?rest" using workerAdvances_subset by blast
  ultimately show False by simp
qed

lemma advanceDeducted_row:
  "advanceDeducted (reportRow h S rq rates att advs w) =
     (if deductAdvance S \<and> workerAdvances h S (endTime rq) advs w \<noteq> []
      then foldl (\<lambda>sum adv. js_add sum (Number h (adv_amount adv))) (Fin 0)
             (workerAdvances h S (endTime rq) advs w)
      else Fin 0)"
  by (simp add: reportRow_def Let_def)

text \<open>
  A run that returns its metadata has written the settled advances back when the
  write-back is enabled, and has left the stored advances alone otherwise; the selection
  and the \<open>deductAdvance\<close> switch are as before.
\<close>

lemma exportAndSave_frame:
  assumes "exportAndSave h i rq S0 rows (L, St, S) = (res, L', St', S')"
  shows "advances_item St' = advances_item St \<and>
         selectedAdvanceWorkers S' = selectedAdvanceWorkers S \<and>
         deductAdvance S' = deductAdvance S"
proof (cases "exportOk i")
  case False
  with assms show ?thesis by (simp add: exportAndSave_def)
next
  case ex: True
  show ?thesis
  proof (cases "reportsWriteOk i")
    case False
    with ex assms show ?thesis by (auto simp: exportAndSave_def Let_def)
  next
    case True
    with ex assms show ?thesis
      by (cases "(exportFormat S0 = pdf \<or> \<not> isWeb h) \<and> \<not> shareOk i")
         (auto simp: exportAndSave_def Let_def)
  qed
qed

lemma settleAndExport_advances:
  assumes "settleAndExport h i rq advs rows (L, St, S) = (Inr m, L', St', S')"
  shows "advances_item St' =
           (if writesBack S then Some (updatedAdvances h S (endTime rq) advs) else advances_item St) \<and>
         selectedAdvanceWorkers S' = selectedAdvanceWorkers S \<and>
         deductAdvance S' = deductAdvance S"
proof (cases "writesBack S")
  case True
  with assms have ok: "advancesWriteOk i"
    by (cases "advancesWriteOk i") (simp_all add: settleAndExport_def)
  with True assms have "exportAndSave h i rq S rows
           (L, St\<lparr>advances_item := Some (updatedAdvances h S (endTime rq) advs)\<rparr>,
            S\<lparr>workersWithAdvance := filter (\<lambda>adv. \<not> truthy (deducted adv))
                                        (updatedAdvances h S (endTime rq) advs)\<rparr>)
         = (Inr m, L', St', S')"
    by (simp add: settleAndExport_def Let_def)
  from exportAndSave_frame[OF this] True show ?thesis by simp
next
  case False
  with assms have "exportAndSave h i rq S rows (L, St, S) = (Inr m, L', St', S')"
    by (simp add: settleAndExport_def)
  from exportAndSave_frame[OF this] False show ?thesis by simp
qed

lemma generateReport_advances:
  assumes "generateReport h i workers folderRates rq (L, St, S) = (Inr m, L', St', S')"
  shows "advances_item St' =
           (if writesBack S
            then Some (updatedAdvances h S (endTime rq)
                         (case advances_item St of Some a \<Rightarrow> a | None \<Rightarrow> []))
            else advances_item St) \<and>
         selectedAdvanceWorkers S' = selectedAdvanceWorkers S \<and>
         deductAdvance S' = deductAdvance S"
proof -
  let ?fetched = "getAttendanceByFolder (attendanceReadOk i) (folder rq) []
                    ((loadAttendance (attendanceLoadOk i) L)\<lparr>attendance := attendance L\<rparr>)"
  let ?advs = "case advances_item St of Some a \<Rightarrow> a | None \<Rightarrow> []"
  obtain att where att: "fst ?fetched = Inr att"
    using assms by (cases "fst ?fetched") (simp_all add: generateReport_def Let_def)
  have ws: "getWorkersByFolder workers (folder rq) \<noteq> []"
    using assms att by (cases "getWorkersByFolder workers (folder rq) = []")
      (simp_all add: generateReport_def Let_def)
  have rd: "advancesReadOk i"
    using assms att ws by (cases "advancesReadOk i") (simp_all add: generateReport_def Let_def)
  obtain r where r: "ratesFor folderRates (folder rq) = Some r"
    using assms att ws rd
    by (cases "ratesFor folderRates (folder rq)") (simp_all add: generateReport_def Let_def)
  have "settleAndExport h i rq ?advs
          (reportData h S rq r att ?advs (getWorkersByFolder workers (folder rq)))
          (if attendanceReadOk i then snd ?fetched else loadAttendance (attendanceLoadOk i) L,
           St, S) = (Inr m, L', St', S')"
    using assms att ws rd r by (simp add: generateReport_def Let_def)
  then show ?thesis by (rule settleAndExport_advances)
qed

lemma writesBack_same:
  "selectedAdvanceWorkers S' = selectedAdvanceWorkers S \<Longrightarrow> deductAdvance S' = deductAdvance S \<Longrightarrow>
   writesBack S' = writesBack S"
  by (simp add: writesBack_def)

lemma generateReport_twice:
  assumes r1: "generateReport h i workers folderRates rq (L, St, S) = (Inr m, L1, St1, S1)"
    and r2: "generateReport h' i' workers' folderRates' rq' (L1, St1, S1) = (Inr m', L2, St2, S2)"
    and t: "timeOf h' = timeOf h" and e: "endTime rq' = endTime rq"
  shows "advances_item St2 = advances_item St1"
proof -
  note a1 = generateReport_advances[OF r1] and a2 = generateReport_advances[OF r2]
  from a1 have same: "selectedAdvanceWorkers S1 = selectedAdvanceWorkers S"
    and ded: "deductAdvance S1 = deductAdvance S" by simp_all
  then have wb: "writesBack S1 = writesBack S" by (rule writesBack_same)
  show ?thesis
  proof (cases "writesBack S")
    case True
    with a1 have s1: "advances_item St1 = Some (updatedAdvances h S (endTime rq)
                         (case advances_item St of Some a \<Rightarrow> a | None \<Rightarrow> []))" by simp
    from a2 wb True have "advances_item St2 = Some (updatedAdvances h' S1 (endTime rq')
                         (case advances_item St1 of Some a \<Rightarrow> a | None \<Rightarrow> []))" by simp
    then show ?thesis unfolding s1 e by (simp add: updatedAdvances_twice[OF t same])
  next
    case False
    with a2 wb show ?thesis by simp
  qed
qed

text \<open>
  Claim C2. Let a second run have the same selected workers and parse dates as the
  first (its clock and the rest of its screen state may differ). The write-back of the
  second run on the advances the first one wrote changes nothing. The write-back
  leaves an advance that is already deducted as it is, and an advance it changes was not
  deducted before and differs only in \<open>deducted = true\<close> and the \<open>deductedOn\<close> stamp of
  this run. A report computed after the write-back, for any selection and any range,
  deducts exactly what it would deduct had the settled advances been removed, and a
  report of the same selection whose range ends no later deducts nothing. Two runs of
  \<open>generateReport\<close> with the same end date that both return their metadata, the second
  from the state the first one left, leave the same stored advances as the first alone.
\<close>

theorem C2_settlement_at_most_once:
  assumes "timeOf h' = timeOf h" and "selectedAdvanceWorkers S' = selectedAdvanceWorkers S"
  shows "updatedAdvances h' S' e (updatedAdvances h S e advs) = updatedAdvances h S e advs \<and>
         (\<forall>i < length advs.
            (truthy (deducted (advs ! i)) \<longrightarrow> updatedAdvances h S e advs ! i = advs ! i) \<and>
            (updatedAdvances h S e advs ! i \<noteq> advs ! i \<longrightarrow>
               \<not> truthy (deducted (advs ! i)) \<and>
               updatedAdvances h S e advs ! i =
                 (advs ! i)\<lparr>deducted := Some True, deductedOn := Some (nowIso h)\<rparr>)) \<and>
         advanceDeducted (reportRow h' S'' rq rates att (updatedAdvances h S e advs) w) =
           advanceDeducted (reportRow h' S'' rq rates att (filter (\<lambda>a. \<not> settles h S e a) advs) w) \<and>
         (endTime rq \<le> e \<longrightarrow>
            advanceDeducted (reportRow h' S' rq rates att (updatedAdvances h S e advs) w) = Fin 0) \<and>
         (generateReport h i workers folderRates rq1 (L, St, S) = (Inr m, L1, St1, S1) \<and>
          generateReport h' i' workers' folderRates' rq2 (L1, St1, S1) = (Inr m', L2, St2, S2) \<and>
          endTime rq2 = endTime rq1 \<longrightarrow>
            advances_item St2 = advances_item St1)"
proof -
  have 1: "updatedAdvances h' S' e (updatedAdvances h S e advs) = updatedAdvances h S e advs"
    using assms by (rule updatedAdvances_twice)
  have 2: "\<forall>i < length advs.
            (truthy (deducted (advs ! i)) \<longrightarrow> updatedAdvances h S e advs ! i = advs ! i) \<and>
            (updatedAdvances h S e advs ! i \<noteq> advs ! i \<longrightarrow>
               \<not> truthy (deducted (advs ! i)) \<and>
               updatedAdvances h S e advs ! i =
                 (advs ! i)\<lparr>deducted := Some True, deductedOn := Some (nowIso h)\<rparr>)"
  proof (intro allI impI)
    fix i assume i: "i < length advs"
    show "(truthy (deducted (advs ! i)) \<longrightarrow> updatedAdvances h S e advs ! i = advs ! i) \<and>
            (updatedAdvances h S e advs ! i \<noteq> advs ! i \<longrightarrow>
               \<not> truthy (deducted (advs ! i)) \<and>
               updatedAdvances h S e advs ! i =
                 (advs ! i)\<lparr>deducted := Some True, deductedOn := Some (nowIso h)\<rparr>)"
      unfolding updatedAdvances_nth[OF i]
      by (cases "settles h S e (advs ! i)") (simp_all add: settles_not_deducted, simp add: settles_def)
  qed
  have 3: "advanceDeducted (reportRow h' S'' rq rates att (updatedAdvances h S e advs) w) =
           advanceDeducted (reportRow h' S'' rq rates att (filter (\<lambda>a. \<not> settles h S e a) advs) w)"
    unfolding advanceDeducted_row workerAdvances_after ..
  have 4: "endTime rq \<le> e \<longrightarrow>
            advanceDeducted (reportRow h' S' rq rates att (updatedAdvances h S e advs) w) = Fin 0"
    unfolding advanceDeducted_row by (simp add: workerAdvances_again[OF assms])
  have 5: "generateReport h i workers folderRates rq1 (L, St, S) = (Inr m, L1, St1, S1) \<and>
          generateReport h' i' workers' folderRates' rq2 (L1, St1, S1) = (Inr m', L2, St2, S2) \<and>
          endTime rq2 = endTime rq1 \<longrightarrow>
            advances_item St2 = advances_item St1"
    using generateReport_twice[OF _ _ assms(1)] by blast
  from 1 2 3 4 5 show ?thesis by blast
qed

text \<open>
  Two advances of one worker, the second dated after the range: the first run settles
  the first advance and deducts 300, the second run changes nothing and deducts 0.
\<close>

lemma firstRun_ok:
  "fst firstRun = Inr (reportMeta exampleHost exampleScreen exampleRequest)"
  by code_simp

lemma secondRun_ok:
  "fst secondRun = Inr (reportMeta laterHost exampleScreen exampleRequest)"
  by code_simp

theorem C2_settlement_witness:
  "timeOf laterHost = timeOf exampleHost \<and>
   selectedAdvanceWorkers laterScreen = selectedAdvanceWorkers exampleScreen \<and>
   updatedAdvances exampleHost exampleScreen 6 [advEarly, advLate] =
     [advEarly\<lparr>deducted := Some True, deductedOn := Some ''2024-01-07T10:20:00.000Z''\<rparr>, advLate] \<and>
   updatedAdvances laterHost laterScreen 6
       (updatedAdvances exampleHost exampleScreen 6 [advEarly, advLate]) =
     updatedAdvances exampleHost exampleScreen 6 [advEarly, advLate] \<and>
   advanceDeducted (reportRow exampleHost exampleScreen exampleRequest
       \<lparr>fullDay = ''600'', halfDay = ''250''\<rparr> exampleAttendance [advEarly, advLate] workerW) = Fin 300 \<and>
   advanceDeducted (reportRow laterHost laterScreen exampleRequest
       \<lparr>fullDay = ''600'', halfDay = ''250''\<rparr> exampleAttendance
       (updatedAdvances exampleHost exampleScreen 6 [advEarly, advLate]) workerW) = Fin 0 \<and>
   fst firstRun = Inr (reportMeta exampleHost exampleScreen exampleRequest) \<and>
   fst secondRun = Inr (reportMeta laterHost exampleScreen exampleRequest) \<and>
   advances_item (fst (snd (snd firstRun))) =
     Some [advEarly\<lparr>deducted := Some True, deductedOn := Some ''2024-01-07T10:20:00.000Z''\<rparr>, advLate] \<and>
   advances_item (fst (snd (snd secondRun))) = advances_item (fst (snd (snd firstRun)))"
proof -
  have h: "timeOf laterHost = timeOf exampleHost" by (simp add: laterHost_def)
  have s: "selectedAdvanceWorkers laterScreen = selectedAdvanceWorkers exampleScreen"
    by (simp add: laterScreen_def)
  have u: "updatedAdvances exampleHost exampleScreen 6 [advEarly, advLate] =
     [advEarly\<lparr>deducted := Some True, deductedOn := Some ''2024-01-07T10:20:00.000Z''\<rparr>, advLate]"
    by code_simp
  have d: "advanceDeducted (reportRow exampleHost exampleScreen exampleRequest
       \<lparr>fullDay = ''600'', halfDay = ''250''\<rparr> exampleAttendance [advEarly, advLate] workerW) = Fin 300"
    by code_simp
  have e: "endTime exampleRequest \<le> 6" by (simp add: exampleRequest_def)
  have fa: "advances_item (fst (snd (snd firstRun))) =
     Some [advEarly\<lparr>deducted := Some True, deductedOn := Some ''2024-01-07T10:20:00.000Z''\<rparr>, advLate]"
    by code_simp
  have r1: "generateReport exampleHost allOk [workerW] exampleRates exampleRequest
              (exampleLedger, exampleStorage\<lparr>advances_item := Some [advEarly, advLate]\<rparr>,
               exampleScreen) =
            (Inr (reportMeta exampleHost exampleScreen exampleRequest),
             fst (snd firstRun), fst (snd (snd firstRun)), snd (snd (snd firstRun)))"
    unfolding firstRun_ok[symmetric] firstRun_def[symmetric] by simp
  have r2: "generateReport laterHost allOk [workerW] exampleRates exampleRequest
              (fst (snd firstRun), fst (snd (snd firstRun)), snd (snd (snd firstRun))) =
            (Inr (reportMeta laterHost exampleScreen exampleRequest),
             fst (snd secondRun), fst (snd (snd secondRun)), snd (snd (snd secondRun)))"
    unfolding secondRun_ok[symmetric] by (simp add: secondRun_def)
  note t = C2_settlement_at_most_once[OF h s, where e = 6 and advs = "[advEarly, advLate]"
         and rq = exampleRequest and rates = "\<lparr>fullDay = ''600'', halfDay = ''250''\<rparr>"
         and att = exampleAttendance and w = workerW
         and i = allOk and workers = "[workerW]" and folderRates = exampleRates
         and ?rq1.0 = exampleRequest and L = exampleLedger
         and St = "exampleStorage\<lparr>advances_item := Some [advEarly, advLate]\<rparr>"
         and m = "reportMeta exampleHost exampleScreen exampleRequest"
         and ?L1.0 = "fst (snd firstRun)" and ?St1.0 = "fst (snd (snd firstRun))"
         and ?S1.0 = "snd (snd (snd firstRun))"
         and i' = allOk and workers' = "[workerW]" and folderRates' = exampleRates
         and ?rq2.0 = exampleRequest
         and m' = "reportMeta laterHost exampleScreen exampleRequest"
         and ?L2.0 = "fst (snd secondRun)" and ?St2.0 = "fst (snd (snd secondRun))"
         and ?S2.0 = "snd (snd (snd secondRun))"]
  from t have "updatedAdvances laterHost laterScreen 6
          (updatedAdvances exampleHost exampleScreen 6 [advEarly, advLate]) =
        updatedAdvances exampleHost exampleScreen 6 [advEarly, advLate]"
    and "advanceDeducted (reportRow laterHost laterScreen exampleRequest
       \<lparr>fullDay = ''600'', halfDay = ''250''\<rparr> exampleAttendance
       (updatedAdvances exampleHost exampleScreen 6 [advEarly, advLate]) workerW) = Fin 0"
    and "advances_item (fst (snd (snd secondRun))) = advances_item (fst (snd (snd firstRun)))"
    using e r1 r2 by blast+
  with h s u d fa firstRun_ok secondRun_ok show ?thesis by simp
qed


section \<open>The attendance a report reads\<close>

text \<open>
  The rows of a report are computed from the \<open>attendance\<close> state of before the reload
  followed by the stored rows, and the first row found for a worker and day decides:
  a stale row of the state wins over the stored one. The state left by the run is the
  reloaded one.
\<close>

lemma generateReport_reads_stale_state:
  "map (\<lambda>a. map r_attendance (art_rows a))
     (documents (fst (snd (snd (generateReport exampleHost allOk [workerW] exampleRates
        exampleRequest (staleLedger, exampleStorage, exampleScreen)))))) = [[''AHA'']] \<and>
   map (\<lambda>a. map r_attendance (art_rows a))
     (documents (fst (snd (snd (generateReport exampleHost allOk [workerW] exampleRates
        exampleRequest (exampleLedger, exampleStorage, exampleScreen)))))) = [[''PHA'']] \<and>
   attendance (fst (snd (generateReport exampleHost allOk [workerW] exampleRates
        exampleRequest (staleLedger, exampleStorage, exampleScreen)))) = exampleAttendance"
  by code_simp


section \<open>Failures during report generation\<close>

lemma generateReport_reaches:
  assumes "getWorkersByFolder workers (folder rq) \<noteq> []" and "attendanceReadOk i"
    and "advancesReadOk i" and "ratesFor folderRates (folder rq) = Some r"
  shows "\<exists>L2 att. generateReport h i workers folderRates rq (L, St, S) =
           settleAndExport h i rq (case advances_item St of Some a \<Rightarrow> a | None \<Rightarrow> [])
             (reportData h S rq r att (case advances_item St of Some a \<Rightarrow> a | None \<Rightarrow> [])
                (getWorkersByFolder workers (folder rq)))
             (L2, St, S)"
  using assms
  by (simp add: generateReport_def getAttendanceByFolder_def Let_def) blast

lemma settleAndExport_export_fails:
  assumes "\<not> exportOk i" and "writesBack S \<longrightarrow> advancesWriteOk i"
  shows "settleAndExport h i rq advs rows (L, St, S) =
           (Inl ExportError, L,
            (if writesBack S then St\<lparr>advances_item := Some (updatedAdvances h S (endTime rq) advs)\<rparr>
             else St),
            (if writesBack S
             then S\<lparr>workersWithAdvance :=
                      filter (\<lambda>adv. \<not> truthy (deducted adv)) (updatedAdvances h S (endTime rq) advs)\<rparr>
             else S))"
  using assms by (simp add: settleAndExport_def exportAndSave_def Let_def)

lemma settleAndExport_write_fails:
  assumes "writesBack S" and "\<not> advancesWriteOk i"
  shows "settleAndExport h i rq advs rows (L, St, S) = (Inl AdvancesWriteError, L, St, S)"
  using assms by (simp add: settleAndExport_def)

text \<open>
  Claim C4, as amended. Take a run that reaches the write-back: the folder has workers,
  the reads succeed and a rate is found. If the export fails (and the settlement write,
  when there is one, succeeded), the run ends with the export's error, no metadata entry
  is persisted and no file is recorded, but the advances have already been written back
  as settled whenever the write-back is enabled. If the settlement write fails, the run
  ends with that error and storage and screen state are as before: nothing is exported
  and no metadata entry is persisted.
\<close>

theorem C4_failures_of_export_and_settlement:
  assumes "getWorkersByFolder workers (folder rq) \<noteq> []" and "attendanceReadOk i"
    and "advancesReadOk i" and "ratesFor folderRates (folder rq) = Some r"
  shows "(\<not> exportOk i \<and> (writesBack S \<longrightarrow> advancesWriteOk i) \<longrightarrow>
            (case generateReport h i workers folderRates rq (L, St, S) of
               (res, L', St', S') \<Rightarrow>
                 res = Inl ExportError \<and>
                 saved_reports_item St' = saved_reports_item St \<and>
                 savedReports S' = savedReports S \<and>
                 documents St' = documents St \<and>
                 advances_item St' =
                   (if writesBack S
                    then Some (updatedAdvances h S (endTime rq)
                                 (case advances_item St of Some a \<Rightarrow> a | None \<Rightarrow> []))
                    else advances_item St))) \<and>
         (writesBack S \<and> \<not> advancesWriteOk i \<longrightarrow>
            (case generateReport h i workers folderRates rq (L, St, S) of
               (res, L', St', S') \<Rightarrow>
                 res = Inl AdvancesWriteError \<and> St' = St \<and> S' = S))"
proof -
  from generateReport_reaches[OF assms, of h L St S] obtain L2 att where
    g: "generateReport h i workers folderRates rq (L, St, S) =
           settleAndExport h i rq (case advances_item St of Some a \<Rightarrow> a | None \<Rightarrow> [])
             (reportData h S rq r att (case advances_item St of Some a \<Rightarrow> a | None \<Rightarrow> [])
                (getWorkersByFolder workers (folder rq)))
             (L2, St, S)" by blast
  show ?thesis unfolding g
    by (auto simp: settleAndExport_export_fails settleAndExport_write_fails)
qed

text \<open>
  A run whose export fails: the advance consumed by the report is stored as deducted,
  and no metadata entry is stored.
\<close>

theorem C4_counterexample:
  "fst (generateReport exampleHost (allOk\<lparr>exportOk := False\<rparr>) [workerW] exampleRates exampleRequest
          (exampleLedger, exampleStorage, exampleScreen)) = Inl ExportError \<and>
   advances_item (fst (snd (snd
      (generateReport exampleHost (allOk\<lparr>exportOk := False\<rparr>) [workerW] exampleRates exampleRequest
          (exampleLedger, exampleStorage, exampleScreen))))) =
     Some [advEarly\<lparr>deducted := Some True, deductedOn := Some ''2024-01-07T10:20:00.000Z''\<rparr>] \<and>
   saved_reports_item (fst (snd (snd
      (generateReport exampleHost (allOk\<lparr>exportOk := False\<rparr>) [workerW] exampleRates exampleRequest
          (exampleLedger, exampleStorage, exampleScreen))))) = None"
  by code_simp

theorem C4_witness:
  "getWorkersByFolder [workerW] (folder exampleRequest) \<noteq> [] \<and>
   ratesFor exampleRates (folder exampleRequest) = Some \<lparr>fullDay = ''600'', halfDay = ''250''\<rparr> \<and>
   writesBack exampleScreen \<and>
   fst (generateReport exampleHost (allOk\<lparr>advancesWriteOk := False\<rparr>) [workerW] exampleRates
          exampleRequest (exampleLedger, exampleStorage, exampleScreen)) = Inl AdvancesWriteError \<and>
   fst (snd (snd (generateReport exampleHost (allOk\<lparr>advancesWriteOk := False\<rparr>) [workerW]
          exampleRates exampleRequest (exampleLedger, exampleStorage, exampleScreen))))
     = exampleStorage \<and>
   fst (generateReport exampleHost (allOk\<lparr>exportOk := False\<rparr>) [workerW] exampleRates
          exampleRequest (exampleLedger, exampleStorage, exampleScreen)) = Inl ExportError \<and>
   saved_reports_item (fst (snd (snd
      (generateReport exampleHost (allOk\<lparr>exportOk := False\<rparr>) [workerW] exampleRates
          exampleRequest (exampleLedger, exampleStorage, exampleScreen))))) = None"
proof -
  let ?r = "\<lparr>fullDay = ''600'', halfDay = ''250''\<rparr>"
  have a1: "getWorkersByFolder [workerW] (folder exampleRequest) \<noteq> []"
    by (simp add: getWorkersByFolder_def workerW_def exampleRequest_def)
  have a4: "ratesFor exampleRates (folder exampleRequest) = Some ?r"
    by (simp add: ratesFor_def exampleRates_def exampleRequest_def)
  have wb: "writesBack exampleScreen" by (simp add: writesBack_def exampleScreen_def)
  have w: "case generateReport exampleHost (allOk\<lparr>advancesWriteOk := False\<rparr>) [workerW]
                  exampleRates exampleRequest (exampleLedger, exampleStorage, exampleScreen) of
             (res, L', St', S') \<Rightarrow>
               res = Inl AdvancesWriteError \<and> St' = exampleStorage \<and> S' = exampleScreen"
    using C4_failures_of_export_and_settlement[where i = "allOk\<lparr>advancesWriteOk := False\<rparr>"
            and S = exampleScreen and h = exampleHost and L = exampleLedger and St = exampleStorage,
            OF a1 _ _ a4] wb
    by (simp add: allOk_def)
  have e: "case generateReport exampleHost (allOk\<lparr>exportOk := False\<rparr>) [workerW]
                  exampleRates exampleRequest (exampleLedger, exampleStorage, exampleScreen) of
             (res, L', St', S') \<Rightarrow>
               res = Inl ExportError \<and> saved_reports_item St' = saved_reports_item exampleStorage"
    using C4_failures_of_export_and_settlement[where i = "allOk\<lparr>exportOk := False\<rparr>"
            and S = exampleScreen and h = exampleHost and L = exampleLedger and St = exampleStorage,
            OF a1 _ _ a4]
    by (simp add: allOk_def split_beta)
  have n: "saved_reports_item exampleStorage = None" by (simp add: exampleStorage_def)
  from w e n a1 a4 wb show ?thesis by (simp add: split_beta)
qed


section \<open>The denomination optimizer is exact and balanced\<close>

text \<open>
  A count that is \<open>Infinity\<close> never satisfies the update condition: its difference from
  the counter is \<open>Infinity\<close>, which is not less than \<open>bestDiff\<close>, and the number of notes
  with it is \<open>Infinity\<close>, which is not less than that of the result.
\<close>

lemma infinite_count_not_stored:
  "\<not> (xless (xabsdiff n PlusInfinity) bd
      \<or> (xabsdiff n PlusInfinity = bd \<and> xless (xadd n PlusInfinity) (Finite t)))"
  by simp

lemma exact_split: "100 dvd (A::int) \<Longrightarrow> n * 500 + ((A - n * 500) div 100) * 100 = A"
proof -
  assume "100 dvd A"
  moreover have "(100::int) dvd n * 500" by simp
  ultimately have "100 dvd (A - n * 500)" by (rule dvd_diff)
  then have "((A - n * 500) div 100) * 100 = A - n * 500" by simp
  then show ?thesis by simp
qed

lemma rest_nonneg: "(n::int) \<le> A div 500 \<Longrightarrow> 0 \<le> (A - n * 500) div 100"
proof -
  assume "n \<le> A div 500"
  then have "n * 500 \<le> (A div 500) * 500" by simp
  also have "\<dots> \<le> A" using div_mult_mod_eq[of A 500] pos_mod_sign[of 500 A] by linarith
  finally have "0 \<le> A - n * 500" by simp
  then show ?thesis by (simp add: pos_imp_zdiv_nonneg_iff)
qed

lemma noteLoop_exit: "\<not> xle n maxN \<Longrightarrow> noteLoop amount maxN n bd r = Some r"
  by (subst noteLoop.simps) simp

lemma noteLoop_take:
  assumes "n \<le> maxN" and "n * 500 + ((A - n * 500) div 100) * 100 = A"
    and "xless (Finite \<bar>n - (A - n * 500) div 100\<bar>) bd
         \<or> (Finite \<bar>n - (A - n * 500) div 100\<bar> = bd
             \<and> n + (A - n * 500) div 100 < notes500 r + notes100 r)"
  shows "noteLoop (Finite A) (Finite maxN) n bd r =
         noteLoop (Finite A) (Finite maxN) (increment n) (Finite \<bar>n - (A - n * 500) div 100\<bar>)
           \<lparr>notes500 = n, notes100 = (A - n * 500) div 100\<rparr>"
  using assms by (subst noteLoop.simps) (simp add: NOTE_500_def NOTE_100_def Let_def)

lemma noteLoop_skip:
  assumes "n \<le> maxN" and "n * 500 + ((A - n * 500) div 100) * 100 = A"
    and "\<not> (xless (Finite \<bar>n - (A - n * 500) div 100\<bar>) bd
         \<or> (Finite \<bar>n - (A - n * 500) div 100\<bar> = bd
             \<and> n + (A - n * 500) div 100 < notes500 r + notes100 r))"
  shows "noteLoop (Finite A) (Finite maxN) n bd r = noteLoop (Finite A) (Finite maxN) (increment n) bd r"
  using assms by (subst noteLoop.simps) (auto simp add: NOTE_500_def NOTE_100_def Let_def)

lemma noteLoop_invariant:
  assumes "100 dvd A" and "maxN = A div 500" and "maxN < exactLimit"
  shows "0 \<le> n \<Longrightarrow>
         bd = PlusInfinity \<and> n = 0 \<or>
         bd = Finite \<bar>notes500 r - notes100 r\<bar> \<and> validNotes A r \<and>
         (\<forall>a. 0 \<le> a \<and> a < n \<longrightarrow> noWorse r a ((A - a * 500) div 100)) \<Longrightarrow>
         n \<le> maxN \<or> bd \<noteq> PlusInfinity \<Longrightarrow>
         \<exists>out. noteLoop (Finite A) (Finite maxN) n bd r = Some out \<and> validNotes A out \<and>
           (\<forall>a. 0 \<le> a \<and> a \<le> maxN \<longrightarrow> noWorse out a ((A - a * 500) div 100))"
proof (induction "nat (maxN + 1 - n)" arbitrary: n bd r)
  case 0
  then have gt: "\<not> n \<le> maxN" by simp
  then have out: "noteLoop (Finite A) (Finite maxN) n bd r = Some r" by (simp add: noteLoop_exit)
  from gt "0.prems"(3) have "bd \<noteq> PlusInfinity" by simp
  with "0.prems"(2) have v: "validNotes A r"
    and nw: "\<forall>a. 0 \<le> a \<and> a < n \<longrightarrow> noWorse r a ((A - a * 500) div 100)"
    by auto
  from nw gt have "\<forall>a. 0 \<le> a \<and> a \<le> maxN \<longrightarrow> noWorse r a ((A - a * 500) div 100)"
    by auto
  with v show ?case unfolding out by simp
next
  case (Suc k)
  then have le: "n \<le> maxN" and k: "k = nat (maxN + 1 - (n + 1))" by simp_all
  from le assms(3) have inc: "increment n = n + 1" by (simp add: increment_def)
  let ?n100 = "(A - n * 500) div 100"
  let ?diff = "\<bar>n - ?n100\<bar>"
  let ?new = "\<lparr>notes500 = n, notes100 = ?n100\<rparr>"
  let ?cond = "xless (Finite ?diff) bd
                 \<or> (Finite ?diff = bd \<and> n + ?n100 < notes500 r + notes100 r)"
  have ex: "n * 500 + ?n100 * 100 = A"
    using assms(1) by (rule exact_split)
  have rest0: "0 \<le> ?n100"
    using le assms(2) by (simp add: rest_nonneg)
  have n1: "0 \<le> n + 1" using Suc.prems(1) by simp
  show ?case
  proof (cases ?cond)
    case c: True
    have step: "noteLoop (Finite A) (Finite maxN) n bd r =
                noteLoop (Finite A) (Finite maxN) (n + 1) (Finite ?diff) ?new"
      using noteLoop_take[OF le ex c] inc by simp
    have vnew: "validNotes A ?new"
      using ex rest0 Suc.prems(1) by (simp add: validNotes_def)
    have inv: "\<forall>a. 0 \<le> a \<and> a < n + 1 \<longrightarrow> noWorse ?new a ((A - a * 500) div 100)"
    proof (intro allI impI)
      fix a assume a: "0 \<le> a \<and> a < n + 1"
      show "noWorse ?new a ((A - a * 500) div 100)"
      proof (cases "a = n")
        case True then show ?thesis by (simp add: noWorse_def)
      next
        case False
        with a have lt: "0 \<le> a \<and> a < n" by simp
        then have "n \<noteq> 0" by auto
        with Suc.prems(2) lt have bd: "bd = Finite \<bar>notes500 r - notes100 r\<bar>"
          and nw: "noWorse r a ((A - a * 500) div 100)" by auto
        show ?thesis using c bd nw by (auto simp: noWorse_def)
      qed
    qed
    have "Finite ?diff = PlusInfinity \<and> n + 1 = 0 \<or>
          Finite ?diff = Finite \<bar>notes500 ?new - notes100 ?new\<bar> \<and> validNotes A ?new \<and>
          (\<forall>a. 0 \<le> a \<and> a < n + 1 \<longrightarrow> noWorse ?new a ((A - a * 500) div 100))"
      using vnew inv by simp
    moreover have "n + 1 \<le> maxN \<or> Finite ?diff \<noteq> PlusInfinity" by simp
    ultimately show ?thesis unfolding step using Suc.hyps(1)[OF k n1] by blast
  next
    case c: False
    have step: "noteLoop (Finite A) (Finite maxN) n bd r = noteLoop (Finite A) (Finite maxN) (n + 1) bd r"
      using noteLoop_skip[OF le ex c] inc by simp
    from c obtain b where bd: "bd = Finite b" by (cases bd) auto
    with Suc.prems(2) have b: "b = \<bar>notes500 r - notes100 r\<bar>" and v: "validNotes A r"
      and nw: "\<forall>a. 0 \<le> a \<and> a < n \<longrightarrow> noWorse r a ((A - a * 500) div 100)" by auto
    have here: "noWorse r n ?n100"
      using c bd b by (auto simp: noWorse_def)
    have inv: "\<forall>a. 0 \<le> a \<and> a < n + 1 \<longrightarrow> noWorse r a ((A - a * 500) div 100)"
    proof (intro allI impI)
      fix a assume a: "0 \<le> a \<and> a < n + 1"
      show "noWorse r a ((A - a * 500) div 100)"
      proof (cases "a = n")
        case True then show ?thesis using here by simp
      next
        case False
        with a have "0 \<le> a \<and> a < n" by simp
        with nw show ?thesis by blast
      qed
    qed
    have "bd = PlusInfinity \<and> n + 1 = 0 \<or>
          bd = Finite \<bar>notes500 r - notes100 r\<bar> \<and> validNotes A r \<and>
          (\<forall>a. 0 \<le> a \<and> a < n + 1 \<longrightarrow> noWorse r a ((A - a * 500) div 100))"
      using bd b v inv by simp
    moreover have "n + 1 \<le> maxN \<or> bd \<noteq> PlusInfinity" using bd by simp
    ultimately show ?thesis unfolding step using Suc.hyps(1)[OF k n1] by blast
  qed
qed

text \<open>
  With \<open>Infinity\<close> as the bound the loop has no exit: every state from which it returns
  has a finite bound.
\<close>

lemma noteLoop_unbounded_aux:
  assumes "noteLoop amount maxN n bd r = Some y"
  shows "maxN \<noteq> PlusInfinity"
  by (rule noteLoop.raw_induct[where P = "\<lambda>a m n b r y. m \<noteq> PlusInfinity", OF _ assms])
     (auto simp: Let_def split: if_splits xint.splits)

lemma noteLoop_unbounded: "noteLoop amount PlusInfinity n bd r = None"
proof (cases "noteLoop amount PlusInfinity n bd r")
  case None then show ?thesis .
next
  case (Some y)
  from noteLoop_unbounded_aux[OF this] show ?thesis by simp
qed


lemma rounded_near: "\<bar>of_int (roundedAmount q) - q\<bar> \<le> 50"
proof -
  let ?f = "\<lfloor>q / 100 + 1 / 2\<rfloor>"
  have 1: "of_int ?f \<le> q / 100 + 1 / 2" by (rule of_int_floor_le)
  have 2: "q / 100 + 1 / 2 < of_int ?f + 1" using floor_correct[of "q / 100 + 1 / 2"] by simp
  have "of_int (roundedAmount q) = (of_int ?f :: rat) * 100"
    by (simp add: roundedAmount_def Math_round_def)
  with 1 2 show ?thesis by (simp add: abs_le_iff field_simps)
qed

lemma rounded_nonneg: "0 \<le> q \<Longrightarrow> 0 \<le> roundedAmount q"
  by (simp add: roundedAmount_def Math_round_def)

lemma rounded_dvd: "100 dvd roundedAmount q"
  by (simp add: roundedAmount_def)

lemma calculate_in_range:
  "roundedAmount q \<le> exactLimit \<Longrightarrow>
   calculateNoteDistribution inexact (Num (Fin q)) =
     noteLoop (Finite (roundedAmount q)) (Finite (roundedAmount q div 500)) 0 PlusInfinity
       \<lparr>notes500 = 0, notes100 = 0\<rparr>"
  by (simp add: calculateNoteDistribution_def maxNotes500_def NOTE_500_def Let_def)

lemma optimizer_optimal:
  assumes "0 \<le> q" and "roundedAmount q \<le> exactLimit"
  shows "\<exists>r. calculateNoteDistribution inexact (Num (Fin q)) = Some r \<and>
           validNotes (roundedAmount q) r \<and>
           (\<forall>a b. 0 \<le> a \<and> 0 \<le> b \<and> a * 500 + b * 100 = roundedAmount q \<longrightarrow> noWorse r a b)"
proof -
  let ?A = "roundedAmount q"
  have A0: "0 \<le> ?A" using assms(1) by (rule rounded_nonneg)
  then have m0: "(0::int) \<le> ?A div 500" by (simp add: pos_imp_zdiv_nonneg_iff)
  have le500: "(?A div 500) * 500 \<le> ?A"
    using div_mult_mod_eq[of ?A 500] pos_mod_sign[of 500 ?A] by linarith
  have pos: "0 < exactLimit" by (simp add: exactLimit_def)
  have lim: "?A div 500 < exactLimit" using le500 assms(2) pos by linarith
  obtain out where out: "noteLoop (Finite ?A) (Finite (?A div 500)) 0 PlusInfinity
                           \<lparr>notes500 = 0, notes100 = 0\<rparr> = Some out"
    and v: "validNotes ?A out"
    and best: "\<forall>a. 0 \<le> a \<and> a \<le> ?A div 500 \<longrightarrow> noWorse out a ((?A - a * 500) div 100)"
    using noteLoop_invariant[OF rounded_dvd refl lim, of 0 PlusInfinity "\<lparr>notes500 = 0, notes100 = 0\<rparr>"] m0
    by auto
  have "\<forall>a b. 0 \<le> a \<and> 0 \<le> b \<and> a * 500 + b * 100 = ?A \<longrightarrow> noWorse out a b"
  proof (intro allI impI)
    fix a b assume h: "0 \<le> a \<and> 0 \<le> b \<and> a * 500 + b * 100 = ?A"
    then have bb: "(?A - a * 500) div 100 = b" by auto
    from h have "a * 500 \<le> ?A" by auto
    then have "a \<le> ?A div 500"
      using div_mult_mod_eq[of ?A 500] pos_mod_bound[of 500 ?A] by linarith
    with h best bb show "noWorse out a b" by auto
  qed
  with out v show ?thesis by (simp add: calculate_in_range[OF assms(2)])
qed

lemma calculate_infinity: "calculateNoteDistribution inexact PosInfinity = None"
  by (simp add: calculateNoteDistribution_def noteLoop_unbounded)

text \<open>
  Claim C6, as amended. For every non-negative finite amount whose rounded value is at
  most \<open>2 ^ 53\<close> the optimizer returns, and returns non-negative counts whose notes add up
  to the amount rounded to the nearest multiple of 100 (the rounded amount is within 50
  of the amount, a half going up). Among all pairs of non-negative counts that add up to
  the rounded amount, the returned pair has the least difference of counts, and among
  the pairs with that difference the fewest notes. Amount 0 gives no notes; 850 rounds
  to 900 and gives one note of 500 and four of 100. On the amount \<open>Infinity\<close> the
  optimizer does not return.
\<close>

theorem C6_optimizer_exact_and_balanced:
  assumes "0 \<le> q" and "roundedAmount q \<le> exactLimit"
  shows "(\<exists>r. calculateNoteDistribution inexact (Num (Fin q)) = Some r \<and>
           0 \<le> notes500 r \<and> 0 \<le> notes100 r \<and>
           notes500 r * 500 + notes100 r * 100 = roundedAmount q \<and>
           \<bar>of_int (roundedAmount q) - q\<bar> \<le> 50 \<and>
           (\<forall>a b. 0 \<le> a \<and> 0 \<le> b \<and> a * 500 + b * 100 = roundedAmount q \<longrightarrow>
              \<bar>notes500 r - notes100 r\<bar> \<le> \<bar>a - b\<bar> \<and>
              (\<bar>a - b\<bar> = \<bar>notes500 r - notes100 r\<bar> \<longrightarrow>
                 notes500 r + notes100 r \<le> a + b))) \<and>
         calculateNoteDistribution inexact (Num (Fin 0)) = Some \<lparr>notes500 = 0, notes100 = 0\<rparr> \<and>
         roundedAmount 850 = 900 \<and>
         calculateNoteDistribution inexact (Num (Fin 850)) = Some \<lparr>notes500 = 1, notes100 = 4\<rparr> \<and>
         calculateNoteDistribution inexact PosInfinity = None"
proof -
  from optimizer_optimal[OF assms, of inexact] obtain r where
    r: "calculateNoteDistribution inexact (Num (Fin q)) = Some r"
    and v: "validNotes (roundedAmount q) r"
    and nw: "\<forall>a b. 0 \<le> a \<and> 0 \<le> b \<and> a * 500 + b * 100 = roundedAmount q \<longrightarrow> noWorse r a b"
    by blast
  have best: "\<forall>a b. 0 \<le> a \<and> 0 \<le> b \<and> a * 500 + b * 100 = roundedAmount q \<longrightarrow>
              \<bar>notes500 r - notes100 r\<bar> \<le> \<bar>a - b\<bar> \<and>
              (\<bar>a - b\<bar> = \<bar>notes500 r - notes100 r\<bar> \<longrightarrow>
                 notes500 r + notes100 r \<le> a + b)"
  proof (intro allI impI)
    fix a b assume h: "0 \<le> a \<and> 0 \<le> b \<and> a * 500 + b * 100 = roundedAmount q"
    with nw have "noWorse r a b" by blast
    then show "\<bar>notes500 r - notes100 r\<bar> \<le> \<bar>a - b\<bar> \<and>
              (\<bar>a - b\<bar> = \<bar>notes500 r - notes100 r\<bar> \<longrightarrow>
                 notes500 r + notes100 r \<le> a + b)"
      by (auto simp: noWorse_def)
  qed
  have r0: "roundedAmount 0 = 0" by code_simp
  have r850: "roundedAmount 850 = 900" by code_simp
  have l0: "noteLoop (Finite 0) (Finite (0 div 500)) 0 PlusInfinity \<lparr>notes500 = 0, notes100 = 0\<rparr>
              = Some \<lparr>notes500 = 0, notes100 = 0\<rparr>" by code_simp
  have l850: "noteLoop (Finite 900) (Finite (900 div 500)) 0 PlusInfinity \<lparr>notes500 = 0, notes100 = 0\<rparr>
              = Some \<lparr>notes500 = 1, notes100 = 4\<rparr>" by code_simp
  have e0: "calculateNoteDistribution inexact (Num (Fin 0)) = Some \<lparr>notes500 = 0, notes100 = 0\<rparr>"
    using calculate_in_range[of 0 inexact] l0 by (simp add: r0 exactLimit_def)
  have e850: "calculateNoteDistribution inexact (Num (Fin 850)) = Some \<lparr>notes500 = 1, notes100 = 4\<rparr>"
    using calculate_in_range[of 850 inexact] l850 by (simp add: r850 exactLimit_def)
  from v have "0 \<le> notes500 r \<and> 0 \<le> notes100 r \<and>
               notes500 r * 500 + notes100 r * 100 = roundedAmount q"
    by (simp add: validNotes_def)
  with r best rounded_near[of q] e0 e850 r850 calculate_infinity[of inexact] show ?thesis by blast
qed

text \<open>
  \<open>Infinity\<close> is a non-negative amount on which the optimizer returns no counts: the
  loop bound is \<open>Infinity\<close> and the loop never exits.
\<close>

theorem C6_counterexample:
  "calculateNoteDistribution (\<lambda>q. None) PosInfinity = None"
  by (rule calculate_infinity)

text \<open>
  At 1500 the pairs (2, 5) and (3, 0) tie on the difference 3; the optimizer returns
  (3, 0), the one with fewer notes.
\<close>

theorem C6_optimizer_witness:
  "(0::rat) \<le> 1500 \<and> roundedAmount 1500 \<le> exactLimit \<and> roundedAmount 1500 = 1500 \<and>
   calculateNoteDistribution (\<lambda>q. None) (Num (Fin 1500)) = Some \<lparr>notes500 = 3, notes100 = 0\<rparr> \<and>
   (\<exists>r. calculateNoteDistribution (\<lambda>q. None) (Num (Fin 1500)) = Some r \<and>
        notes500 r + notes100 r \<le> 2 + 5)"
proof -
  have h: "(0::rat) \<le> 1500" by simp
  have r: "roundedAmount 1500 = 1500" by code_simp
  have l: "roundedAmount 1500 \<le> exactLimit" unfolding r by (simp add: exactLimit_def)
  have c: "calculateNoteDistribution (\<lambda>q. None) (Num (Fin 1500)) = Some \<lparr>notes500 = 3, notes100 = 0\<rparr>"
    by code_simp
  from C6_optimizer_exact_and_balanced[OF h l, of "\<lambda>q. None"] obtain r' where
    r': "calculateNoteDistribution (\<lambda>q. None) (Num (Fin 1500)) = Some r'"
    and t: "\<forall>a b. 0 \<le> a \<and> 0 \<le> b \<and> a * 500 + b * 100 = roundedAmount 1500 \<longrightarrow>
              \<bar>notes500 r' - notes100 r'\<bar> \<le> \<bar>a - b\<bar> \<and>
              (\<bar>a - b\<bar> = \<bar>notes500 r' - notes100 r'\<bar> \<longrightarrow>
                 notes500 r' + notes100 r' \<le> a + b)"
    by blast
  from r' c have eq: "r' = \<lparr>notes500 = 3, notes100 = 0\<rparr>" by simp
  from t[rule_format, of 2 5] have "notes500 r' + notes100 r' \<le> 2 + 5"
    unfolding r eq by simp
  with r' h l r c show ?thesis by blast
qed


section \<open>The optimizer on negative amounts\<close>

lemma negative_far: assumes "q < - 50" shows "roundedAmount q \<le> - 100"
proof -
  have "q / 100 + 1 / 2 < 0" using assms by simp
  then have "\<lfloor>q / 100 + 1 / 2\<rfloor> < 0" by (simp only: floor_less_zero)
  then show ?thesis unfolding roundedAmount_def Math_round_def by linarith
qed

lemma negative_near: assumes "- 50 \<le> q" and "q < 0" shows "roundedAmount q = 0"
proof -
  have "0 \<le> q / 100 + 1 / 2" "q / 100 + 1 / 2 < 1" using assms by simp_all
  then have "\<lfloor>q / 100 + 1 / 2\<rfloor> = 0" by (simp add: floor_eq_iff)
  then show ?thesis by (simp add: roundedAmount_def Math_round_def)
qed

lemma noteLoop_zero:
  "noteLoop (Finite 0) (Finite 0) 0 PlusInfinity \<lparr>notes500 = 0, notes100 = 0\<rparr> =
     Some \<lparr>notes500 = 0, notes100 = 0\<rparr>"
  by code_simp

text \<open>
  Claim C10, as amended. For every strictly negative amount the optimizer returns no
  notes. Below -50 the rounded amount is at most -100, the maximum count of 500 notes is
  negative, the loop body never runs and the notes returned do not add up to the rounded
  amount. From -50 up to (not including) 0 the amount rounds to 0, the maximum count is
  0, the loop body runs once and the notes returned add up to the rounded amount. On
  \<open>-Infinity\<close> the optimizer returns no notes either.
\<close>

theorem C10_negative_amounts:
  assumes "q < 0"
  shows "(\<exists>r. calculateNoteDistribution inexact (Num (Fin q)) = Some r \<and>
              r = \<lparr>notes500 = 0, notes100 = 0\<rparr> \<and>
              (q < - 50 \<longrightarrow>
                 maxNotes500 (roundedAmount q) < 0 \<and>
                 notes500 r * 500 + notes100 r * 100 \<noteq> roundedAmount q) \<and>
              (- 50 \<le> q \<longrightarrow>
                 maxNotes500 (roundedAmount q) = 0 \<and>
                 notes500 r * 500 + notes100 r * 100 = roundedAmount q)) \<and>
         calculateNoteDistribution inexact NegInfinity = Some \<lparr>notes500 = 0, notes100 = 0\<rparr>"
proof -
  have pos: "0 < exactLimit" by (simp add: exactLimit_def)
  have inf: "calculateNoteDistribution inexact NegInfinity = Some \<lparr>notes500 = 0, notes100 = 0\<rparr>"
    by (simp add: calculateNoteDistribution_def)
  show ?thesis
  proof (cases "q < - 50")
    case True
    then have A: "roundedAmount q \<le> - 100" by (rule negative_far)
    then have m: "maxNotes500 (roundedAmount q) < 0"
      by (simp add: maxNotes500_def NOTE_500_def div_neg_pos_less0)
    from A pos have "roundedAmount q \<le> exactLimit" by linarith
    with m have "calculateNoteDistribution inexact (Num (Fin q)) = Some \<lparr>notes500 = 0, notes100 = 0\<rparr>"
      by (simp add: calculateNoteDistribution_def Let_def noteLoop_exit)
    with A m True inf show ?thesis by simp
  next
    case False
    then have A: "roundedAmount q = 0" using assms by (simp add: negative_near)
    with pos have "calculateNoteDistribution inexact (Num (Fin q)) = Some \<lparr>notes500 = 0, notes100 = 0\<rparr>"
      by (simp add: calculateNoteDistribution_def Let_def maxNotes500_def NOTE_500_def noteLoop_zero)
    with A False inf show ?thesis by (simp add: maxNotes500_def NOTE_500_def)
  qed
qed

text \<open>
  At -30, a strictly negative amount, the maximum count of 500 notes is 0, not
  negative, and the exact-sum equation holds.
\<close>

theorem C10_counterexample:
  "(- 30 :: rat) < 0 \<and> maxNotes500 (roundedAmount (- 30)) = 0 \<and>
   map_option (\<lambda>r. notes500 r * 500 + notes100 r * 100)
     (calculateNoteDistribution (\<lambda>q. None) (Num (Fin (- 30)))) = Some (roundedAmount (- 30))"
  by code_simp

theorem C10_witness:
  "(- 120 :: rat) < 0 \<and>
   calculateNoteDistribution (\<lambda>q. None) (Num (Fin (- 120))) = Some \<lparr>notes500 = 0, notes100 = 0\<rparr> \<and>
   maxNotes500 (roundedAmount (- 120)) < 0 \<and> roundedAmount (- 120) = - 100 \<and>
   (- 50 :: rat) < 0 \<and>
   calculateNoteDistribution (\<lambda>q. None) (Num (Fin (- 50))) = Some \<lparr>notes500 = 0, notes100 = 0\<rparr> \<and>
   maxNotes500 (roundedAmount (- 50)) = 0 \<and> roundedAmount (- 50) = 0"
proof -
  have h: "(- 120 :: rat) < 0" by simp
  have r: "roundedAmount (- 120) = - 100" by code_simp
  have h': "(- 50 :: rat) < 0" by simp
  have r': "roundedAmount (- 50) = 0" by code_simp
  from C10_negative_amounts[OF h, of "\<lambda>q. None"] C10_negative_amounts[OF h', of "\<lambda>q. None"] r r' h h'
  show ?thesis by auto
qed

end
